theory Spec2Isabelle
  imports Main "HOL-Library.Word"
begin

section \<open>Conway's Game of Life: the cell update, the simulation loops and the NPY files\<close>

text \<open>
  The development embeds the C sources of the repository: the per-cell \<open>update\<close> and the
  loop of \<open>main\<close> of the serial program, \<open>get_num_neighbors\<close> and \<open>simulate\<close> of the
  CUDA program, and the NPY reader and writer of \<open>util.c\<close>.

  Conventions. A \<open>uint8_t\<close> is an \<open>8 word\<close>; a buffer is the list of its bytes, and the
  length of the list is the size of the allocation. A \<open>size_t\<close> is a \<open>nat\<close>: every index
  the programs compute stays below \<open>2 ^ 64\<close> for buffers that fit an address space, and
  each subtraction of the sources is guarded so that it cannot go below zero; where a
  product of sizes can wrap, the model writes \<open>mod 2 ^ 64\<close>. A C \<open>int\<close> counter is an
  \<open>int\<close>. Failures are values of the type \<open>error\<close>.
\<close>

subsection \<open>Bytes, errors and memory accesses\<close>

type_synonym byte = "8 word"

datatype error = OutOfBounds nat | DivisionByZero

definition seq :: "error + 'a \<Rightarrow> ('a \<Rightarrow> error + 'b) \<Rightarrow> error + 'b" where
  "seq r f = (case r of Inl e \<Rightarrow> Inl e | Inr v \<Rightarrow> f v)"

text \<open>
  C gives no meaning to a read past the end of an array. The model takes the outcome of
  such a read from a parameter \<open>past\<close>: at offset \<open>k\<close> of the buffer, \<open>past k = None\<close> when
  the access is a fault, and \<open>past k = Some b\<close> when the machine hands back the byte
  \<open>b\<close> that lies behind the buffer. The strict reading of C is \<open>\<lambda>_. None\<close>. A theorem
  stated for every \<open>past\<close> holds under either reading. One such function serves both
  buffers and all steps of a run, though the bytes behind two buffers need not be the
  same; the evaluations below that depend on these bytes run a single step.
\<close>

type_synonym past = "nat \<Rightarrow> byte option"

definition rd :: "past \<Rightarrow> byte list \<Rightarrow> nat \<Rightarrow> error + byte" where
  "rd past g k =
     (if k < length g then Inr (g ! k)
      else case past k of None \<Rightarrow> Inl (OutOfBounds k) | Some b \<Rightarrow> Inr b)"

text \<open>A store outside the buffer is always a failure.\<close>

definition wr :: "byte list \<Rightarrow> nat \<Rightarrow> byte \<Rightarrow> error + byte list" where
  "wr g k v = (if k < length g then Inr (g[k := v]) else Inl (OutOfBounds k))"

subsection \<open>The serial cell update (\<open>update\<close>)\<close>

text \<open>
  One line \<open>neighbor_count += c && grid[k];\<close> of the source: \<open>&&\<close> evaluates its right
  operand only when the left one holds, and the sum grows by the truth value, 0 or 1.
\<close>

definition live :: "past \<Rightarrow> byte list \<Rightarrow> bool \<Rightarrow> nat \<Rightarrow> error + int" where
  "live past g c k =
     (if c then seq (rd past g k) (\<lambda>b. Inr (if b \<noteq> 0 then 1 else 0)) else Inr 0)"

text \<open>
  Lines 24 to 35 of \<open>update\<close>: the coordinates and the eight additions, in the order of
  the source and with the guards of the source (\<open>x < sz\<close> and \<open>y < sz\<close> on the right and
  lower sides).
\<close>

definition update_count :: "past \<Rightarrow> byte list \<Rightarrow> nat \<Rightarrow> nat \<Rightarrow> error + int" where
  "update_count past grid i sz =
     (if sz = 0 then Inl DivisionByZero
      else
        let x = i mod sz; y = i div sz in
        seq (live past grid (x \<ge> 1 \<and> y \<ge> 1) (i - sz - 1)) (\<lambda>c1.
        seq (live past grid (y \<ge> 1) (i - sz)) (\<lambda>c2.
        seq (live past grid (x < sz \<and> y \<ge> 1) (i - sz + 1)) (\<lambda>c3.
        seq (live past grid (x \<ge> 1) (i - 1)) (\<lambda>c4.
        seq (live past grid (x < sz) (i + 1)) (\<lambda>c5.
        seq (live past grid (x \<ge> 1 \<and> y < sz) (i + sz - 1)) (\<lambda>c6.
        seq (live past grid (y < sz) (i + sz)) (\<lambda>c7.
        seq (live past grid (x < sz \<and> y < sz) (i + sz + 1)) (\<lambda>c8.
        Inr (c1 + c2 + c3 + c4 + c5 + c6 + c7 + c8))))))))))"

text \<open>
  Line 40: the value stored at \<open>grid_next[i]\<close> is the truth value of the rule. The state
  is the pair of the two buffers \<open>(grid, grid_next)\<close>, returned updated; the two are
  distinct objects, as the two allocations of \<open>main\<close> are.
\<close>

definition rule :: "byte \<Rightarrow> int \<Rightarrow> byte" where
  "rule a nc =
     (if (a \<noteq> 0 \<and> (nc > 1 \<and> nc \<le> 3)) \<or> (a = 0 \<and> nc = 3) then 1 else 0)"

definition update ::
  "past \<Rightarrow> byte list \<times> byte list \<Rightarrow> nat \<Rightarrow> nat \<Rightarrow> error + (byte list \<times> byte list)" where
  "update past bufs i sz =
     (case bufs of (grid, grid_next) \<Rightarrow>
        seq (update_count past grid i sz) (\<lambda>nc.
        seq (rd past grid i) (\<lambda>a.
        seq (wr grid_next i (rule a nc)) (\<lambda>nx.
        Inr (grid, nx)))))"

subsection \<open>The serial simulation (\<open>swap\<close> and lines 104 to 118 of \<open>main\<close>)\<close>

text \<open>\<open>swap\<close> exchanges the two pointers: the buffers trade their roles.\<close>

definition swap :: "byte list \<times> byte list \<Rightarrow> byte list \<times> byte list" where
  "swap bufs = (case bufs of (grid, grid_next) \<Rightarrow> (grid_next, grid))"

text \<open>Lines 113 to 115: \<open>update\<close> at each index of the list, in order.\<close>

fun main_sweep ::
  "past \<Rightarrow> nat \<Rightarrow> nat list \<Rightarrow> byte list \<times> byte list \<Rightarrow> error + (byte list \<times> byte list)" where
  "main_sweep past n [] bufs = Inr bufs"
| "main_sweep past n (i # is) bufs = seq (update past bufs i n) (main_sweep past n is)"

text \<open>
  \<open>malloc\<close> returns a block whose bytes are indeterminate: \<open>junk\<close> says what the block
  happens to hold. Allocations are taken to succeed; the source does not test them.
  \<open>memcpy dst off src cnt\<close> is \<open>memcpy(dst + off, src, cnt)\<close>.
\<close>

definition malloc :: "(nat \<Rightarrow> byte) \<Rightarrow> nat \<Rightarrow> byte list" where
  "malloc junk cnt = map junk [0..<cnt]"

definition memcpy :: "byte list \<Rightarrow> nat \<Rightarrow> byte list \<Rightarrow> nat \<Rightarrow> error + byte list" where
  "memcpy dst off src cnt =
     (if length src < cnt then Inl (OutOfBounds (length src))
      else if length dst < off + cnt then Inl (OutOfBounds (length dst))
      else Inr (take off dst @ take cnt src @ drop (off + cnt) dst))"

record sim =
  grid_copy :: "byte list"
  grid_next :: "byte list"
  grids :: "byte list"

text \<open>
  Lines 112 to 118: the loop over \<open>step\<close>, with \<open>todo\<close> the number of steps still to run
  (\<open>iterations - step\<close>). Each step sweeps all indices, swaps the buffers and copies the
  current grid to \<open>grids + step * grid_size\<close>.
\<close>

fun main_loop :: "past \<Rightarrow> nat \<Rightarrow> nat \<Rightarrow> nat \<Rightarrow> nat \<Rightarrow> sim \<Rightarrow> error + sim" where
  "main_loop past grid_size n step 0 s = Inr s"
| "main_loop past grid_size n step (Suc todo) s =
     seq (main_sweep past n [0..<grid_size] (grid_copy s, grid_next s)) (\<lambda>swept.
     case swap swept of (cur, nxt) \<Rightarrow>
     seq (memcpy (grids s) (step * grid_size) cur grid_size) (\<lambda>hist.
     main_loop past grid_size n (step + 1) todo
       \<lparr>grid_copy = cur, grid_next = nxt, grids = hist\<rparr>))"

text \<open>
  Lines 104 to 118: the three allocations, the two copies of the loaded grid (an
  \<open>m\<close> by \<open>n\<close> array) and the loop. The result is the state in which \<open>main\<close> hands
  \<open>grids\<close> to the writer.
\<close>

definition main_simulation ::
  "past \<Rightarrow> (nat \<Rightarrow> byte) \<Rightarrow> byte list \<Rightarrow> nat \<Rightarrow> nat \<Rightarrow> nat \<Rightarrow> error + sim" where
  "main_simulation past junk grid m n iterations =
     (let grid_size = (m * n) mod 2 ^ 64;
          copy0 = malloc junk grid_size;
          next0 = malloc junk grid_size;
          grids0 = malloc junk (((iterations + 1) * grid_size) mod 2 ^ 64)
      in
      seq (memcpy copy0 0 grid grid_size) (\<lambda>copy1.
      seq (memcpy grids0 0 grid grid_size) (\<lambda>grids1.
      main_loop past grid_size n 0 iterations
        \<lparr>grid_copy = copy1, grid_next = next0, grids = grids1\<rparr>)))"

text \<open>Entry \<open>k\<close> of a history buffer whose entries are \<open>grid_size\<close> bytes long.\<close>

definition snapshot :: "byte list \<Rightarrow> nat \<Rightarrow> nat \<Rightarrow> byte list" where
  "snapshot hist grid_size k = take grid_size (drop (k * grid_size) hist)"

subsection \<open>The CUDA kernel (\<open>get_num_neighbors\<close> and \<open>simulate\<close>)\<close>

text \<open>\<open>get_num_neighbors\<close>, with its guards: \<open>sz - 1\<close> on five of the eight lines.\<close>

definition get_num_neighbors :: "past \<Rightarrow> byte list \<Rightarrow> nat \<Rightarrow> nat \<Rightarrow> error + int" where
  "get_num_neighbors past grid i sz =
     (if sz = 0 then Inl DivisionByZero
      else
        let x = i mod sz; y = i div sz in
        seq (live past grid (x \<ge> 1 \<and> y \<ge> 1) (i - sz - 1)) (\<lambda>c1.
        seq (live past grid (y \<ge> 1) (i - sz)) (\<lambda>c2.
        seq (live past grid (x < sz \<and> y \<ge> 1) (i - sz + 1)) (\<lambda>c3.
        seq (live past grid (x \<ge> 1) (i - 1)) (\<lambda>c4.
        seq (live past grid (x < sz - 1) (i + 1)) (\<lambda>c5.
        seq (live past grid (x \<ge> 1 \<and> y < sz - 1) (i + sz - 1)) (\<lambda>c6.
        seq (live past grid (y < sz - 1) (i + sz)) (\<lambda>c7.
        seq (live past grid (x < sz - 1 \<and> y < sz - 1) (i + sz + 1)) (\<lambda>c8.
        Inr (c1 + c2 + c3 + c4 + c5 + c6 + c7 + c8))))))))))"

text \<open>
  Lines 223 and 224, the body of the inner loop of \<open>simulate\<close> in thread \<open>i\<close> at cell
  \<open>k\<close>: the count is taken at \<open>k\<close>, the alive flag is read at \<open>grid[i]\<close>.
\<close>

definition simulate_cell ::
  "past \<Rightarrow> byte list \<times> byte list \<Rightarrow> nat \<Rightarrow> nat \<Rightarrow> nat \<Rightarrow> error + (byte list \<times> byte list)" where
  "simulate_cell past bufs i k world_size =
     (case bufs of (g, g_next) \<Rightarrow>
        seq (get_num_neighbors past g k world_size) (\<lambda>n.
        seq (rd past g i) (\<lambda>a.
        seq (wr g_next k (rule a n)) (\<lambda>nx.
        Inr (g, nx)))))"

text \<open>
  Line 222: thread \<open>i\<close> visits the cells \<open>i\<close>, \<open>i + blockDim\<close>, \<open>i + 2 * blockDim\<close>, ...
  below \<open>world_size * world_size\<close> (a block has at least one thread, so the loop ends).
\<close>

fun simulate_cells ::
  "past \<Rightarrow> nat \<Rightarrow> nat \<Rightarrow> nat list \<Rightarrow> byte list \<times> byte list \<Rightarrow> error + (byte list \<times> byte list)" where
  "simulate_cells past world_size i [] bufs = Inr bufs"
| "simulate_cells past world_size i (k # ks) bufs =
     seq (simulate_cell past bufs i k world_size) (simulate_cells past world_size i ks)"

definition simulate_thread ::
  "past \<Rightarrow> nat \<Rightarrow> nat \<Rightarrow> nat \<Rightarrow> byte list \<times> byte list \<Rightarrow> error + (byte list \<times> byte list)" where
  "simulate_thread past blockDim world_size i bufs =
     simulate_cells past world_size i
       (filter (\<lambda>k. (k - i) mod blockDim = 0) [i..<world_size * world_size]) bufs"

text \<open>
  One step of one block: its threads \<open>0\<close> to \<open>blockDim - 1\<close>, then the swap after the
  barrier. Within a step every thread reads \<open>grid\<close> only and stores at cells of
  \<open>grid_next\<close> no other thread stores at, so running the threads one after the other
  gives the buffers the block leaves at the barrier.
\<close>

fun simulate_threads ::
  "past \<Rightarrow> nat \<Rightarrow> nat \<Rightarrow> nat list \<Rightarrow> byte list \<times> byte list \<Rightarrow> error + (byte list \<times> byte list)" where
  "simulate_threads past blockDim world_size [] bufs = Inr bufs"
| "simulate_threads past blockDim world_size (i # is) bufs =
     seq (simulate_thread past blockDim world_size i bufs)
       (simulate_threads past blockDim world_size is)"

definition simulate_step ::
  "past \<Rightarrow> nat \<Rightarrow> nat \<Rightarrow> byte list \<times> byte list \<Rightarrow> error + (byte list \<times> byte list)" where
  "simulate_step past blockDim world_size bufs =
     seq (simulate_threads past blockDim world_size [0..<blockDim] bufs) (\<lambda>b. Inr (swap b))"

subsection \<open>Writing an NPY file (\<open>grid_to_npy\<close> and \<open>grid_to_npy_path\<close>)\<close>

text \<open>
  An open output stream: the bytes written so far, and \<open>room\<close>, the number of bytes the
  device still accepts. \<open>fwrite buf nmemb f\<close> is \<open>fwrite(buf, 1, nmemb, f)\<close>: it writes
  as many of the \<open>nmemb\<close> bytes as there is room for and returns that count, so a
  short write is a count below \<open>nmemb\<close>. The stream is taken to write through; a
  buffered stream reports the failure at a later call, at the latest in \<open>fclose\<close>,
  whose result the source does not look at either.
\<close>

record out_file =
  content :: "byte list"
  room :: nat

definition fwrite :: "byte list \<Rightarrow> nat \<Rightarrow> out_file \<Rightarrow> error + (nat \<times> out_file)" where
  "fwrite buf nmemb f =
     (let k = min nmemb (room f) in
      if length buf < k then Inl (OutOfBounds (length buf))
      else Inr (k, f\<lparr>content := content f @ take k buf, room := room f - k\<rparr>))"

text \<open>The conversion \<open>%zu\<close>: a \<open>size_t\<close> in decimal, without leading zeros.\<close>

fun decimal :: "nat \<Rightarrow> string" where
  "decimal n =
     (if n < 10 then [''0123456789'' ! n]
      else decimal (n div 10) @ [''0123456789'' ! (n mod 10)])"

declare decimal.simps [simp del]

text \<open>
  The characters the format of line 158 produces for the shape \<open>(m, n, p)\<close>: the byte
  \<open>0x93\<close>, \<open>NUMPY\<close>, the byte 1, three spaces and the descriptor.
\<close>

definition header_text :: "nat \<Rightarrow> nat \<Rightarrow> nat \<Rightarrow> string" where
  "header_text m n p =
     [CHR 0x93] @ ''NUMPY'' @ [CHR 0x01] @ ''   '' @
     ''{'descr': '<u1', 'fortran_order': False, 'shape': ('' @
     decimal m @ '', '' @ decimal n @ '', '' @ decimal p @ ''), }''"

text \<open>
  \<open>snprintf(buf, size, ...)\<close> stores at most \<open>size - 1\<close> characters and a terminating
  zero, and returns the length of the whole text, stored or not.
\<close>

definition snprintf :: "string \<Rightarrow> nat \<Rightarrow> string \<Rightarrow> string \<times> nat" where
  "snprintf buf cap txt =
     (let w = take (cap - 1) txt
      in (w @ [CHR 0x00] @ drop (length w + 1) buf, length txt))"

text \<open>
  Lines 157 to 165: the array \<open>header\<close> of 128 characters, indeterminate at first
  (\<open>stack\<close> says what it holds). The test \<open>len < 0\<close> of line 161 is on a \<open>size_t\<close> and
  never holds. The \<open>unsigned short\<close> 118 is stored low byte first (a little-endian
  host): \<open>0x76\<close>, then 0. \<open>memset(header + len, ' ', 128 - len - 1)\<close> stays inside the
  array when \<open>len \<le> 127\<close>; from \<open>len = 128\<close> on the count wraps around or the start lies
  behind the array, and the store at \<open>header + len\<close> is out of bounds.
\<close>

definition npy_header :: "(nat \<Rightarrow> char) \<Rightarrow> nat \<Rightarrow> nat \<Rightarrow> nat \<Rightarrow> error + string" where
  "npy_header stack m n p =
     (case snprintf (map stack [0..<128]) 128 (header_text m n p) of (h1, len) \<Rightarrow>
        let h2 = h1[7 := CHR 0x00];
            h3 = h2[8 := CHR 0x76, 9 := CHR 0x00]
        in if 127 < len then Inl (OutOfBounds len)
           else Inr ((take len h3 @ replicate (127 - len) (CHR '' '') @ drop 127 h3)
                       [127 := CHR 0x0A]))"

definition byte_of_char :: "char \<Rightarrow> byte" where
  "byte_of_char c = of_nat (of_char c)"

text \<open>
  \<open>grid_to_npy\<close>: the header, then \<open>n * m * p\<close> bytes of the grid; the result compares
  the count of the second \<open>fwrite\<close> with \<open>n * m\<close>.
\<close>

definition grid_to_npy ::
  "(nat \<Rightarrow> char) \<Rightarrow> out_file \<Rightarrow> byte list \<Rightarrow> nat \<Rightarrow> nat \<Rightarrow> nat \<Rightarrow> error + (bool \<times> out_file)" where
  "grid_to_npy stack f grid m n p =
     seq (npy_header stack m n p) (\<lambda>header.
     seq (fwrite (map byte_of_char header) 128 f) (\<lambda>(head, f1).
     if head \<noteq> 128 then Inr (False, f1)
     else seq (fwrite grid ((n * m * p) mod 2 ^ 64) f1) (\<lambda>(written, f2).
          Inr (written = (n * m) mod 2 ^ 64, f2))))"

text \<open>
  \<open>grid_to_npy_path\<close>: \<open>fopen\<close> says which stream, if any, the path opens for
  writing. The result of \<open>grid_to_npy\<close> is dropped and \<open>true\<close> is returned.
\<close>

definition grid_to_npy_path ::
  "(string \<Rightarrow> out_file option) \<Rightarrow> (nat \<Rightarrow> char) \<Rightarrow> string \<Rightarrow> byte list \<Rightarrow> nat \<Rightarrow> nat
     \<Rightarrow> nat \<Rightarrow> error + (bool \<times> out_file option)" where
  "grid_to_npy_path fopen stack path grid m n p =
     (case fopen path of
        None \<Rightarrow> Inr (False, None)
      | Some f \<Rightarrow> seq (grid_to_npy stack f grid m n p) (\<lambda>(r, f1). Inr (True, Some f1)))"

subsection \<open>Reading an NPY file (\<open>grid_from_npy\<close> and \<open>grid_from_npy_path\<close>)\<close>

text \<open>
  A file is the list of its bytes, written as characters. The reader of \<open>util.c\<close> calls
  \<open>__npy_read_header\<close>, declared in \<open>matrix_io_helpers.h\<close>; neither that header nor
  the file that defines the helper is among the sources. The helper is modelled from
  the specification, sections 4.1 and 6: it checks the magic bytes and the version,
  reads the length of the header text (bytes 8 and 9, low byte first), parses the text
  \<open>{'descr': '<u1', 'fortran_order': False, 'shape': (...), }\<close>, padded with spaces
  and ended by a newline, and gives the shape and the offset at which the payload
  begins. It fails when the magic bytes do not match, the text does not parse, the
  element type is not the unsigned 8-bit integer, or the shape has not 1 or 2
  dimensions.
\<close>

text \<open>Modelled from the spec: the fixed magic sequence of bytes 0 to 5 (helper \<open>__npy_read_header\<close>).\<close>

definition npy_magic :: string where
  "npy_magic = [CHR 0x93] @ ''NUMPY''"

text \<open>
  Modelled from the spec: the pieces of the parser of the descriptor text (helper
  \<open>__npy_read_header\<close>). \<open>strip_prefix p s\<close> is the rest of \<open>s\<close> behind the fixed text \<open>p\<close>,
  if \<open>s\<close> begins with it.
\<close>

fun strip_prefix :: "string \<Rightarrow> string \<Rightarrow> string option" where
  "strip_prefix [] s = Some s"
| "strip_prefix (p # ps) [] = None"
| "strip_prefix (p # ps) (c # cs) = (if p = c then strip_prefix ps cs else None)"

text \<open>Modelled from the spec: decimal digits and their values (helper \<open>__npy_read_header\<close>).\<close>

definition is_digit :: "char \<Rightarrow> bool" where
  "is_digit c = (c \<in> set ''0123456789'')"

definition digit_val :: "char \<Rightarrow> nat" where
  "digit_val c = of_char c - 48"

text \<open>
  Modelled from the spec: one dimension size, a non-empty run of decimal digits, and the
  rest of the text (helper \<open>__npy_read_header\<close>).
\<close>

definition read_number :: "string \<Rightarrow> (nat \<times> string) option" where
  "read_number s =
     (let ds = takeWhile is_digit s
      in if ds = [] then None
         else Some (foldl (\<lambda>a c. 10 * a + digit_val c) 0 ds, dropWhile is_digit s))"

text \<open>
  Modelled from the spec: the shape behind the opening parenthesis, of 1 dimension
  (\<open>N,)\<close>) or of 2 (\<open>R, C)\<close>); any other dimensionality does not parse (helper
  \<open>__npy_read_header\<close>).
\<close>

definition read_shape :: "string \<Rightarrow> (nat list \<times> string) option" where
  "read_shape s =
     (case read_number s of
        None \<Rightarrow> None
      | Some (r, s1) \<Rightarrow>
          (case strip_prefix '',)'' s1 of
             Some s2 \<Rightarrow> Some ([r], s2)
           | None \<Rightarrow>
               (case strip_prefix '', '' s1 of
                  None \<Rightarrow> None
                | Some s2 \<Rightarrow>
                    (case read_number s2 of
                       None \<Rightarrow> None
                     | Some (c, s3) \<Rightarrow>
                         (case strip_prefix '')'' s3 of
                            None \<Rightarrow> None
                          | Some s4 \<Rightarrow> Some ([r, c], s4))))))"

text \<open>
  Modelled from the spec: the parser of the header text (helper \<open>__npy_read_header\<close>):
  the element type between the quotes, the layout \<open>False\<close>, the shape, the closing
  \<open>, }\<close>, spaces and a newline. The result is the element type and the shape.
\<close>

definition npy_parse_descr :: "string \<Rightarrow> (string \<times> nat list) option" where
  "npy_parse_descr t =
     (case strip_prefix (''{'descr': '' @ [CHR 0x27]) t of
        None \<Rightarrow> None
      | Some t1 \<Rightarrow>
          (case strip_prefix ([CHR 0x27] @ '', 'fortran_order': False, 'shape': ('')
                  (dropWhile (\<lambda>c. c \<noteq> CHR 0x27) t1) of
             None \<Rightarrow> None
           | Some t2 \<Rightarrow>
               (case read_shape t2 of
                  None \<Rightarrow> None
                | Some (dims, t3) \<Rightarrow>
                    (case strip_prefix '', }'' t3 of
                       None \<Rightarrow> None
                     | Some t4 \<Rightarrow>
                         if dropWhile (\<lambda>c. c = CHR '' '') t4 = [CHR 0x0A]
                         then Some (takeWhile (\<lambda>c. c \<noteq> CHR 0x27) t1, dims)
                         else None))))"

text \<open>
  Modelled from the spec: the helper \<open>__npy_read_header\<close> itself, on the bytes of the
  file: \<open>None\<close> when it returns false, else the shape \<open>(sh[0], sh[1])\<close> and the offset of
  the payload. The specification does not say which of the two sizes a shape of one
  dimension fills; the model takes \<open>(N, 1)\<close>.
\<close>

definition npy_read_header :: "string \<Rightarrow> ((nat \<times> nat) \<times> nat) option" where
  "npy_read_header f =
     (if length f < 10 then None
      else if take 6 f \<noteq> npy_magic then None
      else if (f ! 6, f ! 7) \<noteq> (CHR 0x01, CHR 0x00) then None
      else
        let hlen = of_char (f ! 8) + 256 * of_char (f ! 9)
        in if length f < 10 + hlen then None
           else
             (case npy_parse_descr (take hlen (drop 10 f)) of
                None \<Rightarrow> None
              | Some (descr, dims) \<Rightarrow>
                  if descr \<noteq> ''<u1'' then None
                  else
                    (case dims of
                       [n] \<Rightarrow> Some ((n, 1), 10 + hlen)
                     | [r, c] \<Rightarrow> Some ((r, c), 10 + hlen)
                     | _ \<Rightarrow> None)))"

text \<open>
  The functions of \<open>util.c\<close>. \<open>fopen path\<close> is the content of the file the path opens
  for reading and writing, if any; \<open>mmap len f\<close> is the address of the mapping of the
  file, \<open>None\<close> for \<open>MAP_FAILED\<close>. Both belong to the system and are parameters. The
  result of the reader is \<open>None\<close> for the null pointer; else the pointer it returns
  together with the values it stores in \<open>*m\<close> and \<open>*n\<close>.
\<close>

definition grid_from_npy :: "(nat \<Rightarrow> string \<Rightarrow> nat option) \<Rightarrow> string \<Rightarrow> (nat \<times> nat \<times> nat) option" where
  "grid_from_npy mmap f =
     (case npy_read_header f of
        None \<Rightarrow> None
      | Some ((sh0, sh1), offset) \<Rightarrow>
          (case mmap ((sh0 * sh1 + offset) mod 2 ^ 64) f of
             None \<Rightarrow> None
           | Some x \<Rightarrow> Some (x + offset, sh0, sh1)))"

definition grid_from_npy_path ::
  "(string \<Rightarrow> string option) \<Rightarrow> (nat \<Rightarrow> string \<Rightarrow> nat option) \<Rightarrow> string
     \<Rightarrow> (nat \<times> nat \<times> nat) option" where
  "grid_from_npy_path fopen mmap path =
     (case fopen path of
        None \<Rightarrow> None
      | Some f \<Rightarrow> grid_from_npy mmap f)"

text \<open>
  Files in the form the specification gives (section 6), to state what the reader does
  with them: the text of the descriptor for an element type, a shape and a number of
  padding spaces, and the file made of the preamble, that text and a payload.
\<close>

fun shape_text :: "nat list \<Rightarrow> string" where
  "shape_text [] = []"
| "shape_text [n] = decimal n @ '',''"
| "shape_text (n # ns) = decimal n @ concat (map (\<lambda>k. '', '' @ decimal k) ns)"

definition npy_descr_text :: "string \<Rightarrow> nat list \<Rightarrow> nat \<Rightarrow> string" where
  "npy_descr_text descr dims pad =
     ''{'descr': '' @ [CHR 0x27] @ descr @ [CHR 0x27] @
     '', 'fortran_order': False, 'shape': ('' @ shape_text dims @ ''), }'' @
     replicate pad (CHR '' '') @ [CHR 0x0A]"

definition npy_file :: "string \<Rightarrow> nat list \<Rightarrow> nat \<Rightarrow> string \<Rightarrow> string" where
  "npy_file descr dims pad payload =
     (let t = npy_descr_text descr dims pad
      in npy_magic @
         [CHR 0x01, CHR 0x00, char_of (length t mod 256), char_of (length t div 256)] @
         t @ payload)"

subsection \<open>The rule of the specification\<close>

text \<open>
  The rule as the specification words it (section 4.2 and the glossary), to compare
  \<open>update\<close> with: the neighbours of cell \<open>i\<close> are the up to 8 adjacent positions
  inside the \<open>sz\<close> by \<open>sz\<close> grid, positions out of range left out, not wrapped; the count
  is the number of live cells among them; the next state is alive exactly for a live
  cell with a count of 2 or 3 or a dead cell with a count of 3.
\<close>

definition spec_neighbors :: "nat \<Rightarrow> nat \<Rightarrow> nat list" where
  "spec_neighbors i sz =
     (let x = int (i mod sz); y = int (i div sz)
      in [nat ((y + dy) * int sz + (x + dx)).
            dy \<leftarrow> [- 1, 0, 1], dx \<leftarrow> [- 1, 0, 1],
            (dx, dy) \<noteq> (0, 0) \<and> 0 \<le> x + dx \<and> x + dx < int sz \<and>
            0 \<le> y + dy \<and> y + dy < int sz])"

definition spec_neighbor_count :: "byte list \<Rightarrow> nat \<Rightarrow> nat \<Rightarrow> int" where
  "spec_neighbor_count grid i sz =
     int (length (filter (\<lambda>k. grid ! k \<noteq> 0) (spec_neighbors i sz)))"

definition spec_next_state :: "byte list \<Rightarrow> nat \<Rightarrow> nat \<Rightarrow> byte" where
  "spec_next_state grid i sz =
     (let c = spec_neighbor_count grid i sz
      in if (grid ! i \<noteq> 0 \<and> (c = 2 \<or> c = 3)) \<or> (grid ! i = 0 \<and> c = 3) then 1 else 0)"

section \<open>Properties\<close>

subsection \<open>Sequencing and memory accesses\<close>

lemma seq_Inr_iff: "seq r f = Inr y \<longleftrightarrow> (\<exists>v. r = Inr v \<and> f v = Inr y)"
  by (cases r) (simp_all add: seq_def)

lemma wr_Inr_iff: "wr g k v = Inr g' \<longleftrightarrow> k < length g \<and> g' = g[k := v]"
  by (auto simp: wr_def)

lemma live_range: "live past g c k = Inr v \<Longrightarrow> 0 \<le> v \<and> v \<le> 1"
  by (auto simp: live_def seq_def split: if_splits sum.splits)

lemma live_returns: "(c \<longrightarrow> k < length g) \<Longrightarrow> \<exists>v. live past g c k = Inr v"
  by (simp add: live_def rd_def seq_def)

lemma live_seqE:
  assumes "seq (live past g c k) f = Inr y"
  obtains v where "0 \<le> v" and "v \<le> 1" and "f v = Inr y"
  using assms live_range by (fastforce simp: seq_Inr_iff)

text \<open>
  A read that does not fault under the strict reading is inside the buffer, and gives the
  same byte whatever lies behind the buffer.
\<close>

lemma live_strict:
  "live (\<lambda>_. None) g c k = Inr v \<Longrightarrow> live past g c k = Inr v"
  by (auto simp: live_def rd_def seq_def split: if_splits)

lemma seq_live_strict:
  assumes "seq (live (\<lambda>_. None) g c k) f = Inr y"
    and "\<And>v. f v = Inr y \<Longrightarrow> f' v = Inr y"
  shows "seq (live past g c k) f' = Inr y"
proof -
  from assms(1) obtain v where "live (\<lambda>_. None) g c k = Inr v" and "f v = Inr y"
    by (auto simp: seq_Inr_iff)
  with live_strict [of g c k v past] assms(2) show ?thesis
    by (simp add: seq_def)
qed

subsection \<open>The neighbour count and the rule\<close>

lemma update_count_range:
  assumes "update_count past g i sz = Inr nc"
  shows "0 \<le> nc \<and> nc \<le> 8"
proof -
  from assms have
    "seq (live past g (i mod sz \<ge> 1 \<and> i div sz \<ge> 1) (i - sz - 1)) (\<lambda>c1.
     seq (live past g (i div sz \<ge> 1) (i - sz)) (\<lambda>c2.
     seq (live past g (i mod sz < sz \<and> i div sz \<ge> 1) (i - sz + 1)) (\<lambda>c3.
     seq (live past g (i mod sz \<ge> 1) (i - 1)) (\<lambda>c4.
     seq (live past g (i mod sz < sz) (i + 1)) (\<lambda>c5.
     seq (live past g (i mod sz \<ge> 1 \<and> i div sz < sz) (i + sz - 1)) (\<lambda>c6.
     seq (live past g (i div sz < sz) (i + sz)) (\<lambda>c7.
     seq (live past g (i mod sz < sz \<and> i div sz < sz) (i + sz + 1)) (\<lambda>c8.
     Inr (c1 + c2 + c3 + c4 + c5 + c6 + c7 + c8))))))))) = Inr nc"
    unfolding update_count_def Let_def by (cases "sz = 0") simp_all
  then show ?thesis
    by (elim live_seqE) simp
qed

lemma update_count_strict:
  assumes "update_count (\<lambda>_. None) g i sz = Inr nc"
  shows "update_count past g i sz = Inr nc"
proof (cases "sz = 0")
  case True
  with assms show ?thesis by (simp add: update_count_def)
next
  case False
  with assms have
    "seq (live (\<lambda>_. None) g (i mod sz \<ge> 1 \<and> i div sz \<ge> 1) (i - sz - 1)) (\<lambda>c1.
     seq (live (\<lambda>_. None) g (i div sz \<ge> 1) (i - sz)) (\<lambda>c2.
     seq (live (\<lambda>_. None) g (i mod sz < sz \<and> i div sz \<ge> 1) (i - sz + 1)) (\<lambda>c3.
     seq (live (\<lambda>_. None) g (i mod sz \<ge> 1) (i - 1)) (\<lambda>c4.
     seq (live (\<lambda>_. None) g (i mod sz < sz) (i + 1)) (\<lambda>c5.
     seq (live (\<lambda>_. None) g (i mod sz \<ge> 1 \<and> i div sz < sz) (i + sz - 1)) (\<lambda>c6.
     seq (live (\<lambda>_. None) g (i div sz < sz) (i + sz)) (\<lambda>c7.
     seq (live (\<lambda>_. None) g (i mod sz < sz \<and> i div sz < sz) (i + sz + 1)) (\<lambda>c8.
     Inr (c1 + c2 + c3 + c4 + c5 + c6 + c7 + c8))))))))) = Inr nc"
    unfolding update_count_def Let_def by simp
  then have
    "seq (live past g (i mod sz \<ge> 1 \<and> i div sz \<ge> 1) (i - sz - 1)) (\<lambda>c1.
     seq (live past g (i div sz \<ge> 1) (i - sz)) (\<lambda>c2.
     seq (live past g (i mod sz < sz \<and> i div sz \<ge> 1) (i - sz + 1)) (\<lambda>c3.
     seq (live past g (i mod sz \<ge> 1) (i - 1)) (\<lambda>c4.
     seq (live past g (i mod sz < sz) (i + 1)) (\<lambda>c5.
     seq (live past g (i mod sz \<ge> 1 \<and> i div sz < sz) (i + sz - 1)) (\<lambda>c6.
     seq (live past g (i div sz < sz) (i + sz)) (\<lambda>c7.
     seq (live past g (i mod sz < sz \<and> i div sz < sz) (i + sz + 1)) (\<lambda>c8.
     Inr (c1 + c2 + c3 + c4 + c5 + c6 + c7 + c8))))))))) = Inr nc"
    by (elim seq_live_strict)
  with False show ?thesis
    unfolding update_count_def Let_def by simp
qed

lemma rule_bit: "rule a nc = 0 \<or> rule a nc = 1"
  by (simp add: rule_def)

lemma rule_alt:
  "0 \<le> nc \<Longrightarrow>
   rule a nc = (if (a \<noteq> 0 \<and> (nc = 2 \<or> nc = 3)) \<or> (a = 0 \<and> nc = 3) then 1 else 0)"
  by (auto simp: rule_def)

lemma update_Inr_iff:
  "update past (g, nx) i sz = Inr r \<longleftrightarrow>
     (\<exists>nc a. update_count past g i sz = Inr nc \<and> rd past g i = Inr a \<and>
        i < length nx \<and> r = (g, nx[i := rule a nc]))"
  by (auto simp: update_def seq_Inr_iff wr_Inr_iff)

lemmas cell_eval =
  update_def update_count_def simulate_cell_def get_num_neighbors_def
  live_def rd_def wr_def rule_def seq_def Let_def

lemma upt_0_9: "[0..<9] = [0, 1, 2, 3, 4, 5, 6, 7, 8]"
  by (simp add: upt_rec)

lemma replicate_9: "replicate 9 x = [x, x, x, x, x, x, x, x, x]"
  by (simp add: numeral_eq_Suc)

lemma update_count_cell_4:
  "update_count (\<lambda>_. None) [0, 255, 0, 7, 1, 0, 0, 0, 0] 4 3 = Inr 2"
  by (simp add: cell_eval)

text \<open>
  What \<open>update\<close> stores, in terms of the count it has taken itself: whenever the count
  of lines 24 to 35 is obtained, it lies between 0 and 8, and the byte stored at index
  \<open>i\<close> follows the rule for that count.
\<close>

lemma update_stores_rule_of_count:
  assumes "update_count past g i sz = Inr nc" and "i < length g" and "i < length nx"
  shows "0 \<le> nc \<and> nc \<le> 8 \<and>
    update past (g, nx) i sz =
      Inr (g, nx[i := (if (g ! i \<noteq> 0 \<and> (nc = 2 \<or> nc = 3)) \<or> (g ! i = 0 \<and> nc = 3)
                       then 1 else 0)])"
proof -
  from update_count_range [OF assms(1)] have r: "0 \<le> nc \<and> nc \<le> 8" .
  then have "rule (g ! i) nc =
      (if (g ! i \<noteq> 0 \<and> (nc = 2 \<or> nc = 3)) \<or> (g ! i = 0 \<and> nc = 3) then 1 else 0)"
    by (simp add: rule_alt)
  with assms r show ?thesis
    by (simp add: update_def seq_def rd_def wr_def)
qed

lemmas spec_eval =
  spec_next_state_def spec_neighbor_count_def spec_neighbors_def Let_def

text \<open>
  Claim C4, which the code does not meet. The count \<open>update\<close> takes is not the number
  of live neighbours of the cell. On the 3 by 3 grid with live cells 1, 3 and 4, the
  dead cell 2 (the right end of the first row) has the neighbours 1, 4 and 5, two of
  them alive, so the rule gives 0. \<open>update\<close> counts cells 1, 3, 4, 5 and 6: the guards
  \<open>x < sz\<close> of lines 32 and 35 let it count cells 3 and 6 of the rows below, it finds 3
  and stores 1. All these reads are inside the grid. Nor is the result a function of
  the grid, \<open>i\<close> and \<open>sz\<close>: at cell 7 of the all-dead grid the count includes the bytes
  behind the buffer, and the byte stored is 0 or 1 with them. This is the defect of
  claim C2.
\<close>

theorem update_miscounts_neighbors:
  "spec_neighbors 2 3 = [1, 4, 5] \<and>
   spec_neighbor_count [0, 1, 0, 1, 1, 0, 0, 0, 0] 2 3 = 2 \<and>
   spec_next_state [0, 1, 0, 1, 1, 0, 0, 0, 0] 2 3 = 0 \<and>
   update_count (\<lambda>_. None) [0, 1, 0, 1, 1, 0, 0, 0, 0] 2 3 = Inr 3 \<and>
   update (\<lambda>_. None) ([0, 1, 0, 1, 1, 0, 0, 0, 0], [9, 9, 9, 9, 9, 9, 9, 9, 9]) 2 3 =
     Inr ([0, 1, 0, 1, 1, 0, 0, 0, 0], [9, 9, 1, 9, 9, 9, 9, 9, 9]) \<and>
   update (\<lambda>_. Some 0) ([0, 0, 0, 0, 0, 0, 0, 0, 0], [9, 9, 9, 9, 9, 9, 9, 9, 9]) 7 3 =
     Inr ([0, 0, 0, 0, 0, 0, 0, 0, 0], [9, 9, 9, 9, 9, 9, 9, 0, 9]) \<and>
   update (\<lambda>_. Some 1) ([0, 0, 0, 0, 0, 0, 0, 0, 0], [9, 9, 9, 9, 9, 9, 9, 9, 9]) 7 3 =
     Inr ([0, 0, 0, 0, 0, 0, 0, 0, 0], [9, 9, 9, 9, 9, 9, 9, 1, 9])"
  by (simp add: spec_eval cell_eval)

text \<open>
  Off the right column and the bottom row the count of \<open>update\<close> is the number of live
  neighbours: there every guard \<open>x < sz\<close> or \<open>y < sz\<close> guards a cell that is a
  neighbour, and \<open>update\<close> stores what the rule of the specification gives, whatever
  lies behind the buffer.
\<close>

lemma live_in:
  "(c \<longrightarrow> k < length g) \<Longrightarrow> live past g c k = Inr (if c \<and> g ! k \<noteq> 0 then 1 else 0)"
  by (simp add: live_def rd_def seq_def)

lemma length_filter_sum:
  "int (length (filter P xs)) = sum_list (map (\<lambda>k. if P k then 1 else 0) xs)"
  by (induction xs) simp_all

lemma spec_neighbors_inside:
  assumes x: "x + 1 < sz" and y: "y + 1 < sz"
  shows "spec_neighbors (y * sz + x) sz =
     (if 1 \<le> y then (if 1 \<le> x then [y * sz + x - sz - 1] else []) @
                      [y * sz + x - sz, y * sz + x - sz + 1] else []) @
     (if 1 \<le> x then [y * sz + x - 1] else []) @ [y * sz + x + 1] @
     (if 1 \<le> x then [y * sz + x + sz - 1] else []) @
     [y * sz + x + sz, y * sz + x + sz + 1]"
proof -
  from x have xs: "x < sz" by simp
  then have m: "(y * sz + x) mod sz = x" and d: "(y * sz + x) div sz = y"
    by simp_all
  have up: "nat ((int y - 1) * int sz + (int x + k)) = y * sz + x - sz + nat k"
    if "1 \<le> y" "0 \<le> k" for k
  proof -
    from that obtain y' where "y = Suc y'" by (cases y) auto
    with that show ?thesis by (simp add: algebra_simps nat_add_distrib nat_mult_distrib)
  qed
  have upl: "nat ((int y - 1) * int sz + (int x - 1)) = y * sz + x - sz - 1"
    if "1 \<le> y" "1 \<le> x"
  proof -
    from that obtain y' x' where "y = Suc y'" "x = Suc x'" by (cases y; cases x) auto
    then show ?thesis by (simp add: algebra_simps nat_add_distrib nat_mult_distrib)
  qed
  have mid: "nat (int y * int sz + (int x + k)) = y * sz + x + nat k" if "0 \<le> k" for k
    using that by (simp add: algebra_simps nat_add_distrib nat_mult_distrib)
  have midl: "nat (int y * int sz + (int x - 1)) = y * sz + x - 1" if "1 \<le> x"
  proof -
    from that obtain x' where "x = Suc x'" by (cases x) auto
    then show ?thesis by (simp add: algebra_simps nat_add_distrib nat_mult_distrib)
  qed
  have dn: "nat ((int y + 1) * int sz + (int x + k)) = y * sz + x + sz + nat k" if "0 \<le> k" for k
    using that by (simp add: algebra_simps nat_add_distrib nat_mult_distrib)
  have dnl: "nat ((int y + 1) * int sz + (int x - 1)) = y * sz + x + sz - 1" if "1 \<le> x"
  proof -
    from that obtain x' where "x = Suc x'" by (cases x) auto
    then show ?thesis by (simp add: algebra_simps nat_add_distrib nat_mult_distrib)
  qed
  show ?thesis
    unfolding spec_neighbors_def Let_def m d
    using x y up [of 0] up [of 1] upl mid [of 1] midl dn [of 0] dn [of 1] dnl
    by (auto simp: )
qed

lemma update_count_inside:
  assumes x: "x + 1 < sz" and y: "y + 1 < sz" and g: "length g = sz * sz"
  shows "update_count past g (y * sz + x) sz = Inr (spec_neighbor_count g (y * sz + x) sz)"
proof -
  define i where "i = y * sz + x"
  from x have m: "i mod sz = x" and d: "i div sz = y"
    by (simp_all add: i_def)
  from y have "y + 2 \<le> sz" by simp
  then have "(y + 2) * sz \<le> sz * sz" by (rule mult_le_mono1)
  with x have b: "i + sz + 1 < length g"
    by (simp add: g i_def)
  have l1: "live past g (1 \<le> x \<and> 1 \<le> y) (i - sz - 1) =
      Inr (if (1 \<le> x \<and> 1 \<le> y) \<and> g ! (i - sz - 1) \<noteq> 0 then 1 else 0)"
    using b by (intro live_in) arith
  have l2: "live past g (1 \<le> y) (i - sz) = Inr (if 1 \<le> y \<and> g ! (i - sz) \<noteq> 0 then 1 else 0)"
    using b by (intro live_in) arith
  have l3: "live past g (x < sz \<and> 1 \<le> y) (i - sz + 1) =
      Inr (if (x < sz \<and> 1 \<le> y) \<and> g ! (i - sz + 1) \<noteq> 0 then 1 else 0)"
    using b by (intro live_in) arith
  have l4: "live past g (1 \<le> x) (i - 1) = Inr (if 1 \<le> x \<and> g ! (i - 1) \<noteq> 0 then 1 else 0)"
    using b by (intro live_in) arith
  have l5: "live past g (x < sz) (i + 1) = Inr (if x < sz \<and> g ! (i + 1) \<noteq> 0 then 1 else 0)"
    using b by (intro live_in) arith
  have l6: "live past g (1 \<le> x \<and> y < sz) (i + sz - 1) =
      Inr (if (1 \<le> x \<and> y < sz) \<and> g ! (i + sz - 1) \<noteq> 0 then 1 else 0)"
    using b by (intro live_in) arith
  have l7: "live past g (y < sz) (i + sz) = Inr (if y < sz \<and> g ! (i + sz) \<noteq> 0 then 1 else 0)"
    using b by (intro live_in) arith
  have l8: "live past g (x < sz \<and> y < sz) (i + sz + 1) =
      Inr (if (x < sz \<and> y < sz) \<and> g ! (i + sz + 1) \<noteq> 0 then 1 else 0)"
    using b by (intro live_in) arith
  have sz: "sz \<noteq> 0" using x by simp
  have c: "update_count past g i sz =
     Inr ((if (1 \<le> x \<and> 1 \<le> y) \<and> g ! (i - sz - 1) \<noteq> 0 then 1 else 0) +
          (if 1 \<le> y \<and> g ! (i - sz) \<noteq> 0 then 1 else 0) +
          (if (x < sz \<and> 1 \<le> y) \<and> g ! (i - sz + 1) \<noteq> 0 then 1 else 0) +
          (if 1 \<le> x \<and> g ! (i - 1) \<noteq> 0 then 1 else 0) +
          (if x < sz \<and> g ! (i + 1) \<noteq> 0 then 1 else 0) +
          (if (1 \<le> x \<and> y < sz) \<and> g ! (i + sz - 1) \<noteq> 0 then 1 else 0) +
          (if y < sz \<and> g ! (i + sz) \<noteq> 0 then 1 else 0) +
          (if (x < sz \<and> y < sz) \<and> g ! (i + sz + 1) \<noteq> 0 then 1 else 0))"
    using sz by (simp only: update_count_def Let_def m d l1 l2 l3 l4 l5 l6 l7 l8 seq_def
        sum.case if_False)
  have s: "spec_neighbor_count g i sz =
     int (length (filter (\<lambda>k. g ! k \<noteq> 0)
       ((if 1 \<le> y then (if 1 \<le> x then [i - sz - 1] else []) @ [i - sz, i - sz + 1] else []) @
        (if 1 \<le> x then [i - 1] else []) @ [i + 1] @
        (if 1 \<le> x then [i + sz - 1] else []) @ [i + sz, i + sz + 1])))"
    by (simp only: spec_neighbor_count_def i_def spec_neighbors_inside [OF x y])
  have "update_count past g i sz = Inr (spec_neighbor_count g i sz)"
    unfolding c s length_filter_sum using x y by simp
  then show ?thesis by (simp add: i_def)
qed

lemma update_agrees_inside:
  assumes g: "length g = sz * sz" and x: "i mod sz + 1 < sz" and y: "i div sz + 1 < sz"
    and nx: "i < length nx"
  shows "update past (g, nx) i sz = Inr (g, nx[i := spec_next_state g i sz])"
proof -
  have i: "i = i div sz * sz + i mod sz" by simp
  from update_count_inside [OF x y g, of past]
  have c: "update_count past g i sz = Inr (spec_neighbor_count g i sz)"
    by (simp only: i [symmetric])
  from y have "i div sz < sz" by simp
  then have "i < sz * sz"
    by (metis i add_lessD1 div_less_iff_less_mult mult.commute x zero_less_iff_neq_zero less_nat_zero_code)
  with g have ig: "i < length g" by simp
  have r: "rule (g ! i) (spec_neighbor_count g i sz) = spec_next_state g i sz"
    by (simp add: spec_next_state_def Let_def rule_alt spec_neighbor_count_def)
  from c ig nx show ?thesis
    by (simp add: update_def seq_def rd_def wr_def r)
qed

subsection \<open>What one call of the update changes\<close>

text \<open>
  Claim C8. One call of \<open>update\<close> that returns has stored at index \<open>i\<close> of the next grid
  and nowhere else: the next grid keeps its length and every other index keeps its
  byte, and the current grid comes back as it was.
\<close>

theorem update_writes_only_index_i:
  assumes "update past (g, nx) i sz = Inr (g', nx')"
  shows "g' = g \<and> length nx' = length nx \<and>
         (\<forall>j. j \<noteq> i \<longrightarrow> nx' ! j = nx ! j)"
  using assms by (auto simp: update_Inr_iff)

lemma update_cell_4:
  "update (\<lambda>_. None) ([0, 255, 0, 7, 1, 0, 0, 0, 0], [9, 9, 9, 9, 9, 9, 9, 9, 9]) 4 3 =
     Inr ([0, 255, 0, 7, 1, 0, 0, 0, 0], [9, 9, 9, 9, 1, 9, 9, 9, 9])"
  by (simp add: cell_eval)

theorem update_writes_only_index_i_witness:
  "update (\<lambda>_. None) ([0, 255, 0, 7, 1, 0, 0, 0, 0], [9, 9, 9, 9, 9, 9, 9, 9, 9]) 4 3 =
     Inr ([0, 255, 0, 7, 1, 0, 0, 0, 0], [9, 9, 9, 9, 1, 9, 9, 9, 9]) \<and>
   length [9, 9, 9, 9, 1, 9, 9, 9, 9 :: byte] = length [9, 9, 9, 9, 9, 9, 9, 9, 9 :: byte] \<and>
   [9, 9, 9, 9, 1, 9, 9, 9, 9 :: byte] ! 3 = [9, 9, 9, 9, 9, 9, 9, 9, 9 :: byte] ! 3 \<and>
   [9, 9, 9, 9, 1, 9, 9, 9, 9 :: byte] ! 5 = [9, 9, 9, 9, 9, 9, 9, 9, 9 :: byte] ! 5"
  using update_writes_only_index_i [OF update_cell_4] update_cell_4
  by simp

subsection \<open>Sweeps and the loop store bits\<close>

lemma main_sweep_inv:
  "main_sweep past n is (g, nx) = Inr (g', nx') \<Longrightarrow>
     g' = g \<and> length nx' = length nx \<and>
     (\<forall>k \<in> set is. nx' ! k = 0 \<or> nx' ! k = 1) \<and>
     (\<forall>k. k \<notin> set is \<longrightarrow> nx' ! k = nx ! k)"
proof (induction "is" arbitrary: nx)
  case Nil
  then show ?case by simp
next
  case (Cons i "is")
  from Cons.prems obtain nc a where
    i: "i < length nx" and
    rest: "main_sweep past n is (g, nx[i := rule a nc]) = Inr (g', nx')"
    by (auto simp: seq_Inr_iff update_Inr_iff)
  note ih = Cons.IH [OF rest]
  have "nx' ! i = 0 \<or> nx' ! i = 1"
  proof (cases "i \<in> set is")
    case True
    with ih show ?thesis by blast
  next
    case False
    with ih have "nx' ! i = nx[i := rule a nc] ! i" by blast
    with i rule_bit [of a nc] show ?thesis by simp
  qed
  moreover have "\<forall>k. k \<notin> set (i # is) \<longrightarrow> nx' ! k = nx ! k"
    using ih by auto
  ultimately show ?case using ih by auto
qed

lemma main_loop_Suc:
  "main_loop past grid_size n step (Suc todo) s = Inr s' \<Longrightarrow>
     \<exists>g nx h. main_sweep past n [0..<grid_size] (grid_copy s, grid_next s) = Inr (g, nx) \<and>
       memcpy (grids s) (step * grid_size) nx grid_size = Inr h \<and>
       main_loop past grid_size n (step + 1) todo
         \<lparr>grid_copy = nx, grid_next = g, grids = h\<rparr> = Inr s'"
  by (auto simp: seq_Inr_iff swap_def split: prod.splits)

lemma main_loop_inv:
  "main_loop past grid_size n step (Suc todo) s = Inr s' \<Longrightarrow>
     (\<forall>k < grid_size. grid_copy s' ! k = 0 \<or> grid_copy s' ! k = 1)"
proof (induction todo arbitrary: step s)
  case 0
  from main_loop_Suc [OF 0] show ?case
    by (auto dest!: main_sweep_inv)
next
  case (Suc todo)
  from main_loop_Suc [OF Suc.prems] obtain s1
    where "main_loop past grid_size n (step + 1) (Suc todo) s1 = Inr s'"
    by blast
  from Suc.IH [OF this] show ?case .
qed

lemma sweep_bytes:
  "main_sweep (\<lambda>_. Some 0) 3 [0..<9] ([0, 255, 0, 7, 1, 0, 0, 0, 0], replicate 9 170) =
     Inr ([0, 255, 0, 7, 1, 0, 0, 0, 0], [1, 1, 1, 1, 1, 1, 0, 0, 0])"
  by (simp add: cell_eval upt_0_9 replicate_9)

lemma loop_bytes:
  "main_loop (\<lambda>_. Some 0) 9 3 0 (Suc 0)
      \<lparr>grid_copy = [0, 255, 0, 7, 1, 0, 0, 0, 0], grid_next = replicate 9 170,
       grids = replicate 18 170\<rparr> =
     Inr \<lparr>grid_copy = [1, 1, 1, 1, 1, 1, 0, 0, 0], grid_next = [0, 255, 0, 7, 1, 0, 0, 0, 0],
          grids = [1, 1, 1, 1, 1, 1, 0, 0, 0] @ replicate 9 170\<rparr>"
  by (simp add: sweep_bytes seq_def swap_def memcpy_def)

text \<open>
  Claim C7. Whatever bytes the grids hold: the byte a returning call of \<open>update\<close> has
  stored at index \<open>i\<close> is 0 or 1; after a returning sweep over the indices below
  \<open>grid_size\<close> every such cell of the next grid is 0 or 1; and after any positive
  number of steps of the loop every such cell of the current grid is 0 or 1.
\<close>

theorem update_stores_bits:
  "(update past (g, nx) i sz = Inr (g1, nx1) \<longrightarrow> nx1 ! i = 0 \<or> nx1 ! i = 1) \<and>
   (main_sweep past n [0..<grid_size] (g, nx) = Inr (g2, nx2) \<longrightarrow>
      (\<forall>k < grid_size. nx2 ! k = 0 \<or> nx2 ! k = 1)) \<and>
   (main_loop past grid_size n step (Suc todo) s = Inr s' \<longrightarrow>
      (\<forall>k < grid_size. grid_copy s' ! k = 0 \<or> grid_copy s' ! k = 1))"
proof (intro conjI impI)
  assume "update past (g, nx) i sz = Inr (g1, nx1)"
  then obtain nc a where "i < length nx" and "nx1 = nx[i := rule a nc]"
    by (auto simp: update_Inr_iff)
  with rule_bit [of a nc] show "nx1 ! i = 0 \<or> nx1 ! i = 1" by simp
next
  assume "main_sweep past n [0..<grid_size] (g, nx) = Inr (g2, nx2)"
  from main_sweep_inv [OF this] show "\<forall>k < grid_size. nx2 ! k = 0 \<or> nx2 ! k = 1"
    by simp
next
  assume "main_loop past grid_size n step (Suc todo) s = Inr s'"
  then show "\<forall>k < grid_size. grid_copy s' ! k = 0 \<or> grid_copy s' ! k = 1"
    by (rule main_loop_inv)
qed

theorem update_stores_bits_witness:
  "update (\<lambda>_. None) ([0, 255, 0, 7, 1, 0, 0, 0, 0], [9, 9, 9, 9, 9, 9, 9, 9, 9]) 4 3 =
     Inr ([0, 255, 0, 7, 1, 0, 0, 0, 0], [9, 9, 9, 9, 1, 9, 9, 9, 9]) \<and>
   ([9, 9, 9, 9, 1, 9, 9, 9, 9 :: byte] ! 4 = 0 \<or> [9, 9, 9, 9, 1, 9, 9, 9, 9 :: byte] ! 4 = 1) \<and>
   main_sweep (\<lambda>_. Some 0) 3 [0..<9] ([0, 255, 0, 7, 1, 0, 0, 0, 0], replicate 9 170) =
     Inr ([0, 255, 0, 7, 1, 0, 0, 0, 0], [1, 1, 1, 1, 1, 1, 0, 0, 0]) \<and>
   ([1, 1, 1, 1, 1, 1, 0, 0, 0 :: byte] ! 8 = 0 \<or> [1, 1, 1, 1, 1, 1, 0, 0, 0 :: byte] ! 8 = 1) \<and>
   main_loop (\<lambda>_. Some 0) 9 3 0 (Suc 0)
      \<lparr>grid_copy = [0, 255, 0, 7, 1, 0, 0, 0, 0], grid_next = replicate 9 170,
       grids = replicate 18 170\<rparr> =
     Inr \<lparr>grid_copy = [1, 1, 1, 1, 1, 1, 0, 0, 0], grid_next = [0, 255, 0, 7, 1, 0, 0, 0, 0],
          grids = [1, 1, 1, 1, 1, 1, 0, 0, 0] @ replicate 9 170\<rparr> \<and>
   ([1, 1, 1, 1, 1, 1, 0, 0, 0 :: byte] ! 0 = 0 \<or> [1, 1, 1, 1, 1, 1, 0, 0, 0 :: byte] ! 0 = 1)"
  using update_stores_bits [of "\<lambda>_. None" "[0, 255, 0, 7, 1, 0, 0, 0, 0]"
      "[9, 9, 9, 9, 9, 9, 9, 9, 9]" 4 3 "[0, 255, 0, 7, 1, 0, 0, 0, 0]"
      "[9, 9, 9, 9, 1, 9, 9, 9, 9]"]
    update_cell_4 sweep_bytes loop_bytes
  by simp

subsection \<open>Reads past the end of the grid\<close>

text \<open>
  On a square grid of any size the update of the last cell reads \<open>grid[i + 1]\<close>, the
  byte behind the buffer: the guard \<open>x < sz\<close> of line 32 always holds.
\<close>

lemma update_last_cell_faults:
  assumes "0 < sz" and "length g = sz * sz"
  shows "update (\<lambda>_. None) (g, nx) (sz * sz - 1) sz = Inl (OutOfBounds (sz * sz))"
proof -
  define i where "i = sz * sz - 1"
  from assms have i: "i < length g" and i1: "i + 1 = sz * sz"
    by (simp_all add: i_def)
  have lt: "i - k < length g" for k
    using i by arith
  have y: "sz \<le> i" if "1 \<le> i div sz"
    using that by (metis One_nat_def Suc_le_eq div_less not_le_imp_less not_less_zero)
  have "\<exists>v. live (\<lambda>_. None) g (i mod sz \<ge> 1 \<and> i div sz \<ge> 1) (i - sz - 1) = Inr v"
    by (intro live_returns) (simp add: lt)
  then obtain c1
    where l1: "live (\<lambda>_. None) g (i mod sz \<ge> 1 \<and> i div sz \<ge> 1) (i - sz - 1) = Inr c1" ..
  have "\<exists>v. live (\<lambda>_. None) g (i div sz \<ge> 1) (i - sz) = Inr v"
    by (intro live_returns) (simp add: lt)
  then obtain c2 where l2: "live (\<lambda>_. None) g (i div sz \<ge> 1) (i - sz) = Inr c2" ..
  have "\<exists>v. live (\<lambda>_. None) g (i mod sz < sz \<and> i div sz \<ge> 1) (i - sz + 1) = Inr v"
    using i y by (intro live_returns) fastforce
  then obtain c3
    where l3: "live (\<lambda>_. None) g (i mod sz < sz \<and> i div sz \<ge> 1) (i - sz + 1) = Inr c3" ..
  have "\<exists>v. live (\<lambda>_. None) g (i mod sz \<ge> 1) (i - 1) = Inr v"
    by (intro live_returns) (simp add: lt)
  then obtain c4 where l4: "live (\<lambda>_. None) g (i mod sz \<ge> 1) (i - 1) = Inr c4" ..
  have l5: "live (\<lambda>_. None) g (i mod sz < sz) (i + 1) = Inl (OutOfBounds (sz * sz))"
    using assms i1 by (simp add: live_def rd_def seq_def)
  have "update_count (\<lambda>_. None) g i sz = Inl (OutOfBounds (sz * sz))"
    unfolding update_count_def Let_def l1 l2 l3 l4 l5 using assms(1)
    by (simp add: seq_def)
  then show ?thesis by (simp add: update_def seq_def i_def)
qed

text \<open>
  Claim C2, which the code does not meet. On the 1 by 1 grid, the update of the only
  cell reads index 1 of a buffer of one byte (line 32); under the strict reading of C
  the call fails there. The CUDA kernel guards the same read with \<open>x < sz - 1\<close>.
\<close>

theorem update_reads_past_the_grid:
  "update (\<lambda>_. None) ([0], [0]) 0 1 = Inl (OutOfBounds 1) \<and>
   get_num_neighbors (\<lambda>_. None) [0] 0 1 = Inr 0"
  by (simp add: cell_eval)

subsection \<open>The history buffer of the serial program\<close>

lemma memcpy_Inr:
  assumes "memcpy dst off src cnt = Inr h"
  shows "length h = length dst" and "take off h = take off dst"
    and "drop (off + cnt) h = drop (off + cnt) dst" and "take cnt (drop off h) = take cnt src"
  using assms by (auto simp: memcpy_def split: if_splits)

text \<open>
  What the loop does to the history, for every input: started at \<open>step\<close> with \<open>todo\<close>
  steps to run, it leaves the entries below \<open>step\<close> and from \<open>step + todo\<close> on as they
  were, and the last entry it writes, \<open>step + todo - 1\<close>, is the final current grid.
\<close>

lemma main_loop_history:
  "main_loop past grid_size n step todo s = Inr s' \<Longrightarrow>
     length (grids s') = length (grids s) \<and>
     take (step * grid_size) (grids s') = take (step * grid_size) (grids s) \<and>
     drop ((step + todo) * grid_size) (grids s') = drop ((step + todo) * grid_size) (grids s) \<and>
     (0 < todo \<longrightarrow>
        snapshot (grids s') grid_size (step + todo - 1) = take grid_size (grid_copy s'))"
proof (induction todo arbitrary: step s)
  case 0
  then show ?case by simp
next
  case (Suc todo)
  from main_loop_Suc [OF Suc.prems] obtain g nx h where
    h: "memcpy (grids s) (step * grid_size) nx grid_size = Inr h" and
    rest: "main_loop past grid_size n (step + 1) todo
         \<lparr>grid_copy = nx, grid_next = g, grids = h\<rparr> = Inr s'"
    by blast
  note m = memcpy_Inr [OF h]
  define K where "K = (step + Suc todo) * grid_size"
  have k1: "(step + 1 + todo) * grid_size = K"
    by (simp add: K_def)
  have k2: "todo * grid_size + (step * grid_size + grid_size) = K"
    by (simp add: K_def algebra_simps)
  have k3: "min (step * grid_size) ((step + 1) * grid_size) = step * grid_size"
    by simp
  from Suc.IH [OF rest] have
    l: "length (grids s') = length h" and
    t: "take ((step + 1) * grid_size) (grids s') = take ((step + 1) * grid_size) h" and
    d: "drop ((step + 1 + todo) * grid_size) (grids s') =
        drop ((step + 1 + todo) * grid_size) h" and
    sn: "0 < todo \<longrightarrow>
      snapshot (grids s') grid_size (step + 1 + todo - 1) = take grid_size (grid_copy s')"
    by simp_all
  have 1: "length (grids s') = length (grids s)" using l m(1) by simp
  from arg_cong [OF t, of "take (step * grid_size)"]
  have "take (step * grid_size) (grids s') = take (step * grid_size) h"
    by (simp only: take_take k3)
  with m(2) have 2: "take (step * grid_size) (grids s') = take (step * grid_size) (grids s)"
    by simp
  from arg_cong [OF m(3), of "drop (todo * grid_size)"]
  have "drop K h = drop K (grids s)"
    by (simp only: drop_drop k2)
  with d have 3: "drop K (grids s') = drop K (grids s)"
    by (simp only: k1)
  have 4: "snapshot (grids s') grid_size (step + Suc todo - 1) = take grid_size (grid_copy s')"
  proof (cases todo)
    case 0
    with rest have "s' = \<lparr>grid_copy = nx, grid_next = g, grids = h\<rparr>" by simp
    moreover from h have "grid_size \<le> length nx"
      by (auto simp: memcpy_def split: if_splits)
    ultimately show ?thesis using m(4) 0 by (simp add: snapshot_def)
  next
    case (Suc t)
    with sn show ?thesis by simp
  qed
  from 1 2 3 4 show ?case by (simp only: K_def) simp
qed

text \<open>
  So for every run of \<open>N + 1\<close> iterations that returns (sizes that do not wrap): entry
  \<open>N\<close> of the history, not entry \<open>N + 1\<close>, is the final grid, and entry \<open>N + 1\<close> is never
  written.
\<close>

lemma main_simulation_history:
  assumes run: "main_simulation past junk grid m n (Suc N) = Inr s"
    and nowrap: "(Suc N + 1) * (m * n) < 2 ^ 64"
  shows "snapshot (grids s) (m * n) N = take (m * n) (grid_copy s)"
    and "snapshot (grids s) (m * n) (Suc N) =
           map junk [Suc N * (m * n)..<(Suc N + 1) * (m * n)]"
proof -
  define gs where "gs = m * n"
  have "gs \<le> (Suc N + 1) * gs" by simp
  with nowrap have w1: "(m * n) mod 2 ^ 64 = gs"
    by (simp add: gs_def)
  from nowrap have w2: "((Suc N + 1) * gs) mod 2 ^ 64 = (Suc N + 1) * gs"
    by (simp add: gs_def)
  from run obtain copy1 grids1 where
    g1: "memcpy (malloc junk ((Suc N + 1) * gs)) 0 grid gs = Inr grids1" and
    loop: "main_loop past gs n 0 (Suc N)
        \<lparr>grid_copy = copy1, grid_next = malloc junk gs, grids = grids1\<rparr> = Inr s"
    unfolding main_simulation_def Let_def w1 w2 by (auto simp: seq_Inr_iff)
  note h = main_loop_history [OF loop]
  from h show "snapshot (grids s) (m * n) N = take (m * n) (grid_copy s)"
    by (simp add: gs_def)
  from h have "drop (Suc N * gs) (grids s) = drop (Suc N * gs) grids1"
    by simp
  also from arg_cong [OF memcpy_Inr(3) [OF g1], of "drop (N * gs)"]
  have "drop (Suc N * gs) grids1 = drop (Suc N * gs) (malloc junk ((Suc N + 1) * gs))"
    by (simp add: add.commute)
  also have "\<dots> = map junk [Suc N * gs..<(Suc N + 1) * gs]"
    by (simp add: malloc_def drop_map)
  finally show "snapshot (grids s) (m * n) (Suc N) =
           map junk [Suc N * (m * n)..<(Suc N + 1) * (m * n)]"
    by (simp add: snapshot_def gs_def)
qed

lemma malloc_const: "malloc (\<lambda>_. c) k = replicate k c"
  by (simp add: malloc_def map_replicate_const)

lemma sweep_single_cell:
  "main_sweep (\<lambda>_. Some 0) 3 [0..<9] ([0, 0, 0, 0, 1, 0, 0, 0, 0], replicate 9 170) =
     Inr ([0, 0, 0, 0, 1, 0, 0, 0, 0], [0, 0, 0, 0, 0, 0, 0, 0, 0])"
  by (simp add: cell_eval upt_0_9 replicate_9)

lemma sweep_single_cell_strict:
  "main_sweep (\<lambda>_. None) 3 [0..<9] ([0, 0, 0, 0, 1, 0, 0, 0, 0], replicate 9 170) =
     Inl (OutOfBounds 9)"
  by (simp add: cell_eval upt_0_9 replicate_9)

text \<open>
  Claim C1, which the code does not meet. The input is the 3 by 3 grid with one live
  cell in the middle, run for one iteration. With zero bytes behind the buffers, the
  run returns a history whose entry 0 is the grid after one step (all dead), not the
  initial grid, and whose entry 1 is what \<open>malloc\<close> left there: line 117 copies to
  \<open>grids + step * grid_size\<close>, over the copy of line 109. Under the strict reading of
  C the run fails in the first sweep, at the read of index 9.
\<close>

theorem main_overwrites_first_snapshot:
  "(case main_simulation (\<lambda>_. Some 0) (\<lambda>_. 170) [0, 0, 0, 0, 1, 0, 0, 0, 0] 3 3 1 of
      Inl e \<Rightarrow> False
    | Inr s \<Rightarrow>
        length (grids s) = 18 \<and>
        snapshot (grids s) 9 0 = [0, 0, 0, 0, 0, 0, 0, 0, 0] \<and>
        snapshot (grids s) 9 0 \<noteq> [0, 0, 0, 0, 1, 0, 0, 0, 0] \<and>
        snapshot (grids s) 9 1 = replicate 9 170) \<and>
   main_simulation (\<lambda>_. None) (\<lambda>_. 170) [0, 0, 0, 0, 1, 0, 0, 0, 0] 3 3 1 =
     Inl (OutOfBounds 9)"
  by (simp add: main_simulation_def malloc_const memcpy_def seq_def swap_def snapshot_def
      sweep_single_cell sweep_single_cell_strict)

subsection \<open>The all-dead grid\<close>

lemma sweep_all_dead:
  "main_sweep (\<lambda>_. Some 1) 3 [0..<9] ([0, 0, 0, 0, 0, 0, 0, 0, 0], replicate 9 170) =
     Inr ([0, 0, 0, 0, 0, 0, 0, 0, 0], [0, 0, 0, 0, 0, 0, 0, 1, 0])"
  by (simp add: cell_eval upt_0_9 replicate_9)

lemma sweep_all_dead_strict:
  "main_sweep (\<lambda>_. None) 3 [0..<9] ([0, 0, 0, 0, 0, 0, 0, 0, 0], replicate 9 170) =
     Inl (OutOfBounds 9)"
  by (simp add: cell_eval upt_0_9 replicate_9)

text \<open>
  Claim C9, which the code does not meet. On the 3 by 3 grid of dead cells the first
  sweep reads indices 9 to 12, behind the buffer of 9 bytes (the lines 32 to 35, whose
  guards are \<open>x < sz\<close> and \<open>y < sz\<close>). Where the bytes found there are not zero, cell 7
  counts three live neighbours and is alive after one iteration; under the strict
  reading of C the run fails at the read of index 9.
\<close>

theorem all_dead_grid_not_fixed:
  "(case main_simulation (\<lambda>_. Some 1) (\<lambda>_. 170) [0, 0, 0, 0, 0, 0, 0, 0, 0] 3 3 1 of
      Inl e \<Rightarrow> False
    | Inr s \<Rightarrow> grid_copy s = [0, 0, 0, 0, 0, 0, 0, 1, 0]) \<and>
   main_simulation (\<lambda>_. None) (\<lambda>_. 170) [0, 0, 0, 0, 0, 0, 0, 0, 0] 3 3 1 =
     Inl (OutOfBounds 9)"
  by (simp add: main_simulation_def malloc_const memcpy_def seq_def swap_def
      sweep_all_dead sweep_all_dead_strict)

subsection \<open>The CUDA kernel against the serial update\<close>

lemma simulate_thread_idle:
  "world_size * world_size \<le> i \<Longrightarrow> simulate_thread past blockDim world_size i bufs = Inr bufs"
  by (simp add: simulate_thread_def)

lemma simulate_threads_idle:
  "(\<And>i. i \<in> set is \<Longrightarrow> world_size * world_size \<le> i) \<Longrightarrow>
     simulate_threads past blockDim world_size is bufs = Inr bufs"
  by (induction "is") (simp_all add: simulate_thread_idle seq_def)

lemma simulate_threads_idle_upt:
  "world_size * world_size \<le> a \<Longrightarrow>
     simulate_threads past blockDim world_size [a..<b] bufs = Inr bufs"
  by (rule simulate_threads_idle) simp

lemma simulate_threads_append:
  "simulate_threads past blockDim world_size (is @ js) bufs =
     seq (simulate_threads past blockDim world_size is bufs)
       (simulate_threads past blockDim world_size js)"
  by (induction "is" arbitrary: bufs) (simp_all add: seq_def split: sum.splits)

lemma simulate_threads_1024:
  "simulate_threads past 1024 3 [0..<1024] bufs = simulate_threads past 1024 3 [0..<9] bufs"
proof -
  have "[0..<1024] = [0..<9] @ [9..<1024]"
    using upt_add_eq_append [of 0 9 1015] by simp
  moreover have "simulate_threads past 1024 3 [9..<1024] b = Inr b" for b
    by (rule simulate_threads_idle_upt) simp
  ultimately show ?thesis
    by (simp add: simulate_threads_append seq_def split: sum.splits)
qed

lemma simulate_thread_3:
  "i < 9 \<Longrightarrow> simulate_thread past 1024 3 i bufs = simulate_cell past bufs i i 3"
proof -
  assume i: "i < 9"
  then have "[i..<9] = i # [Suc i..<9]" by (simp add: upt_conv_Cons)
  moreover have "filter (\<lambda>k. (k - i) mod 1024 = 0) [Suc i..<9] = []"
    using i by (auto simp: filter_empty_conv)
  ultimately show ?thesis
    by (cases "simulate_cell past bufs i i 3") (simp_all add: simulate_thread_def seq_def)
qed

lemma simulate_step_example:
  "simulate_step (\<lambda>_. Some 0) 1024 3 ([0, 1, 0, 1, 1, 0, 0, 0, 0], replicate 9 0) =
     Inr ([1, 1, 0, 1, 1, 1, 0, 0, 0], [0, 1, 0, 1, 1, 0, 0, 0, 0])"
  by (simp add: simulate_step_def simulate_threads_1024 upt_0_9 simulate_thread_3
      cell_eval replicate_9 swap_def)

text \<open>
  The alive flag of the kernel is the cell of the thread, not the cell it updates. In
  a block of 4 threads, thread 0 visits the cells 0, 4 and 8 of a 3 by 3 grid; at cell
  4, alive with two live neighbours, it reads the dead cell 0 and stores 0, where the
  rule gives 1.
\<close>

lemma simulate_cell_flag_of_thread:
  "simulate_cell (\<lambda>_. None) ([0, 0, 0, 1, 1, 1, 0, 0, 0], [9, 9, 9, 9, 9, 9, 9, 9, 9]) 0 4 3 =
     Inr ([0, 0, 0, 1, 1, 1, 0, 0, 0], [9, 9, 9, 9, 0, 9, 9, 9, 9]) \<and>
   simulate_cell (\<lambda>_. None) ([0, 0, 0, 1, 1, 1, 0, 0, 0], [9, 9, 9, 9, 9, 9, 9, 9, 9]) 4 4 3 =
     Inr ([0, 0, 0, 1, 1, 1, 0, 0, 0], [9, 9, 9, 9, 1, 9, 9, 9, 9]) \<and>
   simulate_thread (\<lambda>_. None) 4 3 0
       ([0, 0, 0, 1, 1, 1, 0, 0, 0], [9, 9, 9, 9, 9, 9, 9, 9, 9]) =
     Inr ([0, 0, 0, 1, 1, 1, 0, 0, 0], [0, 9, 9, 9, 0, 9, 9, 9, 0])"
  by (simp add: simulate_thread_def upt_0_9 cell_eval)

lemma sweep_example:
  "main_sweep (\<lambda>_. Some 0) 3 [0..<9] ([0, 1, 0, 1, 1, 0, 0, 0, 0], replicate 9 0) =
     Inr ([0, 1, 0, 1, 1, 0, 0, 0, 0], [1, 1, 1, 1, 1, 1, 0, 0, 0])"
  by (simp add: cell_eval upt_0_9 replicate_9)

text \<open>
  Claim C3, which the code does not meet. On the 3 by 3 grid with live cells 1, 3 and
  4, cell 2 (the right end of the first row) is dead. The serial \<open>update\<close> counts
  cells 1, 3, 4, 5 and 6 for it (the guards \<open>x < sz\<close> let the reads of lines 32 and 35
  run into the next rows), finds three live ones and stores 1. The kernel counts cells
  1, 4 and 5, finds two and stores 0. All these reads are inside the buffer. After one
  step the two grids differ at cell 2, also with zero bytes behind the buffers.
\<close>

theorem simulate_differs_from_update:
  "update (\<lambda>_. None) ([0, 1, 0, 1, 1, 0, 0, 0, 0], [0, 0, 0, 0, 0, 0, 0, 0, 0]) 2 3 =
     Inr ([0, 1, 0, 1, 1, 0, 0, 0, 0], [0, 0, 1, 0, 0, 0, 0, 0, 0]) \<and>
   simulate_cell (\<lambda>_. None) ([0, 1, 0, 1, 1, 0, 0, 0, 0], [0, 0, 0, 0, 0, 0, 0, 0, 0]) 2 2 3 =
     Inr ([0, 1, 0, 1, 1, 0, 0, 0, 0], [0, 0, 0, 0, 0, 0, 0, 0, 0]) \<and>
   seq (main_sweep (\<lambda>_. Some 0) 3 [0..<9] ([0, 1, 0, 1, 1, 0, 0, 0, 0], replicate 9 0))
       (\<lambda>b. Inr (swap b)) =
     Inr ([1, 1, 1, 1, 1, 1, 0, 0, 0], [0, 1, 0, 1, 1, 0, 0, 0, 0]) \<and>
   simulate_step (\<lambda>_. Some 0) 1024 3 ([0, 1, 0, 1, 1, 0, 0, 0, 0], replicate 9 0) =
     Inr ([1, 1, 0, 1, 1, 1, 0, 0, 0], [0, 1, 0, 1, 1, 0, 0, 0, 0])"
proof (intro conjI)
  show "update (\<lambda>_. None) ([0, 1, 0, 1, 1, 0, 0, 0, 0], [0, 0, 0, 0, 0, 0, 0, 0, 0]) 2 3 =
     Inr ([0, 1, 0, 1, 1, 0, 0, 0, 0], [0, 0, 1, 0, 0, 0, 0, 0, 0])"
    by (simp add: cell_eval)
  show "simulate_cell (\<lambda>_. None)
      ([0, 1, 0, 1, 1, 0, 0, 0, 0], [0, 0, 0, 0, 0, 0, 0, 0, 0]) 2 2 3 =
     Inr ([0, 1, 0, 1, 1, 0, 0, 0, 0], [0, 0, 0, 0, 0, 0, 0, 0, 0])"
    by (simp add: cell_eval)
  show "seq (main_sweep (\<lambda>_. Some 0) 3 [0..<9] ([0, 1, 0, 1, 1, 0, 0, 0, 0], replicate 9 0))
       (\<lambda>b. Inr (swap b)) =
     Inr ([1, 1, 1, 1, 1, 1, 0, 0, 0], [0, 1, 0, 1, 1, 0, 0, 0, 0])"
    by (simp add: sweep_example seq_def swap_def)
  show "simulate_step (\<lambda>_. Some 0) 1024 3 ([0, 1, 0, 1, 1, 0, 0, 0, 0], replicate 9 0) =
     Inr ([1, 1, 0, 1, 1, 1, 0, 0, 0], [0, 1, 0, 1, 1, 0, 0, 0, 0])"
    by (rule simulate_step_example)
qed

subsection \<open>The header of the writer\<close>

lemma singleton_drop:
  assumes "length xs = Suc k"
  shows "\<exists>z. drop k xs = [z]"
proof -
  from assms have "length (drop k xs) = 1" by simp
  then show ?thesis by (cases "drop k xs") auto
qed

text \<open>
  The stores of lines 158 to 165 on an array of 128 characters, for a text made of a
  preamble \<open>P\<close> of 10 characters and a body of \<open>59 + d\<close> characters with \<open>d \<le> 58\<close>:
  nothing of the first content of the array is left.
\<close>

lemma header_overlay:
  assumes P: "length P = 10" and body: "length body = 59 + d" and d: "d \<le> 58"
    and buf: "length buf = 128"
  shows "(case snprintf buf 128 (P @ body) of (h1, len) \<Rightarrow>
        let h2 = h1[7 := a];
            h3 = h2[8 := b, 9 := c]
        in if 127 < len then Inl (OutOfBounds len)
           else Inr ((take len h3 @ replicate (127 - len) sp @ drop 127 h3)[127 := nl]))
     = Inr (P[7 := a, 8 := b, 9 := c] @ body @ replicate (58 - d) sp @ [nl])"
proof -
  define J where "J = drop (70 + d) buf"
  define P' where "P' = P[7 := a, 8 := b, 9 := c]"
  have lJ: "length (CHR 0x00 # J) = Suc (58 - d)"
    using d buf by (simp add: J_def)
  have lP': "length P' = 10" by (simp add: P'_def P)
  have s: "snprintf buf 128 (P @ body) = (P @ body @ CHR 0x00 # J, 69 + d)"
    using P body d by (simp add: snprintf_def Let_def J_def)
  have h3: "(P @ body @ CHR 0x00 # J)[7 := a, 8 := b, 9 := c] = P' @ body @ CHR 0x00 # J"
    by (simp add: list_update_append P P'_def)
  have tk: "take (69 + d) (P' @ body @ CHR 0x00 # J) = P' @ body"
    by (simp add: lP' body)
  have "drop 127 (P' @ body @ CHR 0x00 # J) = drop (58 - d) (CHR 0x00 # J)"
    using d by (simp add: lP' body)
  moreover from singleton_drop [OF lJ] obtain z where "drop (58 - d) (CHR 0x00 # J) = [z]" ..
  ultimately have dr: "drop 127 (P' @ body @ CHR 0x00 # J) = [z]" by simp
  have fin: "(P' @ body @ replicate (58 - d) sp @ [z])[127 := nl]
               = P' @ body @ replicate (58 - d) sp @ [nl]"
    using d by (simp add: list_update_append lP' body)
  show ?thesis
    using d
    by (simp add: s Let_def h3 tk dr fin del: take_append drop_append flip: P'_def)
qed

lemma npy_header_fits:
  assumes "length (decimal m) + length (decimal n) + length (decimal p) \<le> 58"
  shows "npy_header stack m n p =
    Inr ([CHR 0x93] @ ''NUMPY'' @ [CHR 0x01, CHR 0x00, CHR 0x76, CHR 0x00] @
      ''{'descr': '<u1', 'fortran_order': False, 'shape': ('' @
      decimal m @ '', '' @ decimal n @ '', '' @ decimal p @ ''), }'' @
      replicate (58 - (length (decimal m) + length (decimal n) + length (decimal p)))
        (CHR '' '') @
      [CHR 0x0A])"
proof -
  define body where "body =
      ''{'descr': '<u1', 'fortran_order': False, 'shape': ('' @
      decimal m @ '', '' @ decimal n @ '', '' @ decimal p @ ''), }''"
  define d where "d = length (decimal m) + length (decimal n) + length (decimal p)"
  define P where "P = [CHR 0x93, CHR ''N'', CHR ''U'', CHR ''M'', CHR ''P'', CHR ''Y'',
      CHR 0x01, CHR '' '', CHR '' '', CHR '' '']"
  have lb: "length body = 59 + d"
    by (simp add: body_def d_def)
  have t: "header_text m n p = P @ body"
    by (simp add: header_text_def body_def P_def)
  have d: "d \<le> 58" using assms by (simp add: d_def)
  have lP: "length P = 10" by (simp add: P_def)
  have "npy_header stack m n p =
     Inr (P[7 := CHR 0x00, 8 := CHR 0x76, 9 := CHR 0x00] @ body @
          replicate (58 - d) (CHR '' '') @ [CHR 0x0A])"
    unfolding npy_header_def t
    by (rule header_overlay [OF lP lb d]) simp
  then show ?thesis by (simp add: body_def d_def P_def)
qed

text \<open>A \<open>size_t\<close> below \<open>10 ^ k\<close> prints with at most \<open>k\<close> digits.\<close>

lemma decimal_length:
  "0 < k \<Longrightarrow> n < 10 ^ k \<Longrightarrow> length (decimal n) \<le> k"
proof (induction k arbitrary: n)
  case 0
  then show ?case by simp
next
  case (Suc k)
  show ?case
  proof (cases "n < 10")
    case True
    then show ?thesis by (simp add: decimal.simps [of n])
  next
    case False
    then have k: "0 < k" using Suc.prems by (cases k) auto
    from Suc.prems have "n div 10 < 10 ^ k"
      by (simp add: less_mult_imp_div_less mult.commute)
    from Suc.IH [OF k this] False show ?thesis
      by (simp add: decimal.simps [of n])
  qed
qed

lemma decimal_small_sizes:
  assumes "m < 10 ^ 19" and "n < 10 ^ 19" and "p < 10 ^ 19"
  shows "length (decimal m) + length (decimal n) + length (decimal p) \<le> 58"
  using decimal_length [of 19 m] decimal_length [of 19 n] decimal_length [of 19 p] assms
  by simp

text \<open>
  Claim C6 as stated fails: for the shape whose three sizes are \<open>3 * 2 ^ 62\<close> (values
  of a \<open>size_t\<close>, with 20 digits each) the text has 129 characters, \<open>snprintf\<close> cuts it,
  and the \<open>memset\<close> of line 164 stores behind the array. No header is produced.
\<close>

theorem npy_header_overflow:
  "npy_header (\<lambda>_. CHR 0x00) 13835058055282163712 13835058055282163712 13835058055282163712
     = Inl (OutOfBounds 129)"
  by (simp add: npy_header_def snprintf_def header_text_def decimal.simps Let_def)

text \<open>
  Claim C6, amended. For every shape whose three sizes print with at most 58 digits
  in all (every shape with sizes below \<open>10 ^ 19\<close> is one), the header is 128 bytes long:
  the magic bytes \<open>0x93\<close> and \<open>NUMPY\<close>, the version bytes 1 and 0, the bytes \<open>0x76\<close> and
  0 (118, low byte first), the descriptor with \<open><u1\<close>, \<open>False\<close> and the three sizes in
  decimal, spaces, and a newline as the last byte.
\<close>

theorem npy_header_layout:
  assumes "length (decimal m) + length (decimal n) + length (decimal p) \<le> 58"
  shows "\<exists>h. npy_header stack m n p = Inr h \<and> length h = 128 \<and> h ! 127 = CHR 0x0A \<and>
    h = [CHR 0x93] @ ''NUMPY'' @ [CHR 0x01, CHR 0x00] @ [CHR 0x76, CHR 0x00] @
      ''{'descr': '<u1', 'fortran_order': False, 'shape': ('' @
      decimal m @ '', '' @ decimal n @ '', '' @ decimal p @ ''), }'' @
      replicate (58 - (length (decimal m) + length (decimal n) + length (decimal p)))
        (CHR '' '') @
      [CHR 0x0A]"
proof -
  define front where "front =
      [CHR 0x93] @ ''NUMPY'' @ [CHR 0x01, CHR 0x00] @ [CHR 0x76, CHR 0x00] @
      ''{'descr': '<u1', 'fortran_order': False, 'shape': ('' @
      decimal m @ '', '' @ decimal n @ '', '' @ decimal p @ ''), }'' @
      replicate (58 - (length (decimal m) + length (decimal n) + length (decimal p)))
        (CHR '' '')"
  have l: "length front = 127"
    using assms by (simp add: front_def)
  have h: "npy_header stack m n p = Inr (front @ [CHR 0x0A])"
    using assms by (simp add: npy_header_fits front_def)
  have "(front @ [CHR 0x0A]) ! 127 = CHR 0x0A"
    using l by (simp add: nth_append)
  with h l show ?thesis
    by (simp add: front_def)
qed

theorem npy_header_layout_witness:
  "length (decimal 4) + length (decimal 3) + length (decimal 3) = 3 \<and>
   (\<exists>h. npy_header (\<lambda>_. CHR ''?'') 4 3 3 = Inr h \<and> length h = 128 \<and> h ! 127 = CHR 0x0A \<and>
      h = [CHR 0x93] @ ''NUMPY'' @ [CHR 0x01, CHR 0x00] @ [CHR 0x76, CHR 0x00] @
        ''{'descr': '<u1', 'fortran_order': False, 'shape': (4, 3, 3), }'' @
        replicate 55 (CHR '' '') @ [CHR 0x0A])"
proof -
  have d: "length (decimal 4) + length (decimal 3) + length (decimal 3) \<le> 58"
    by (simp add: decimal.simps)
  from npy_header_layout [OF d, of "\<lambda>_. CHR ''?''"] show ?thesis
    by (simp add: decimal.simps)
qed

subsection \<open>The result of the writer\<close>

text \<open>
  Claim C5, which the code does not meet. First: the stream accepts no byte, so the
  write of the header is short, and \<open>grid_to_npy_path\<close> reports success with nothing
  written (it drops the result of \<open>grid_to_npy\<close>). Second: the stream accepts 130
  bytes, the payload of 4 bytes is cut after 2, and \<open>grid_to_npy\<close> itself reports
  success, since line 171 compares the count with \<open>n * m = 2\<close>. Third: header and
  payload are written in full and \<open>grid_to_npy\<close> reports failure.
\<close>

theorem grid_to_npy_path_hides_short_write:
  "grid_to_npy_path (\<lambda>_. Some \<lparr>content = [], room = 0\<rparr>) (\<lambda>_. CHR 0x00) ''out.npy''
      [1, 0, 0, 1] 1 2 2
     = Inr (True, Some \<lparr>content = [], room = 0\<rparr>) \<and>
   (case grid_to_npy (\<lambda>_. CHR 0x00) \<lparr>content = [], room = 130\<rparr> [1, 0, 0, 1] 1 2 2 of
      Inl e \<Rightarrow> False
    | Inr (r, f) \<Rightarrow> r = True \<and> length (content f) = 130) \<and>
   (case grid_to_npy (\<lambda>_. CHR 0x00) \<lparr>content = [], room = 1000\<rparr> [1, 0, 0, 1] 1 2 2 of
      Inl e \<Rightarrow> False
    | Inr (r, f) \<Rightarrow>
        r = False \<and> length (content f) = 132 \<and> drop 128 (content f) = [1, 0, 0, 1])"
  by (simp add: grid_to_npy_path_def grid_to_npy_def npy_header_fits decimal.simps seq_def
      fwrite_def)

subsection \<open>The header helper on files of the specified form\<close>

lemma strip_prefix_append: "strip_prefix p (p @ r) = Some r"
  by (induction p) simp_all

lemma digit_chars:
  assumes "d < 10"
  shows "is_digit (''0123456789'' ! d)" and "digit_val (''0123456789'' ! d) = d"
proof -
  from assms have
    "d = 0 \<or> d = 1 \<or> d = 2 \<or> d = 3 \<or> d = 4 \<or> d = 5 \<or> d = 6 \<or> d = 7 \<or> d = 8 \<or> d = 9"
    by arith
  then show "is_digit (''0123456789'' ! d)" and "digit_val (''0123456789'' ! d) = d"
    by (auto simp: is_digit_def digit_val_def)
qed

lemma decimal_digits: "c \<in> set (decimal n) \<Longrightarrow> is_digit c"
proof (induction n arbitrary: c rule: decimal.induct)
  case (1 n)
  show ?case
  proof (cases "n < 10")
    case True
    with "1.prems" show ?thesis
      by (simp add: decimal.simps [of n] digit_chars)
  next
    case False
    with "1.prems" "1.IH" show ?thesis
      by (auto simp: decimal.simps [of n] digit_chars)
  qed
qed

lemma decimal_not_empty: "decimal n \<noteq> []"
  by (simp add: decimal.simps [of n])

text \<open>The digits \<open>%zu\<close> prints are read back as the number printed.\<close>

lemma decimal_value: "foldl (\<lambda>a c. 10 * a + digit_val c) 0 (decimal n) = n"
proof (induction n rule: decimal.induct)
  case (1 n)
  show ?case
  proof (cases "n < 10")
    case True
    then show ?thesis
      by (simp add: decimal.simps [of n] digit_chars)
  next
    case False
    with "1.IH" show ?thesis
      by (simp add: decimal.simps [of n] digit_chars)
  qed
qed

lemma read_number_decimal:
  assumes "r = [] \<or> \<not> is_digit (hd r)"
  shows "read_number (decimal n @ r) = Some (n, r)"
proof -
  have tw: "takeWhile is_digit (decimal n @ r) = decimal n"
    using assms decimal_digits [of _ n] by (cases r) (auto simp: takeWhile_append2)
  have dw: "dropWhile is_digit (decimal n @ r) = r"
    using assms decimal_digits [of _ n] by (cases r) (auto simp: dropWhile_append2)
  show ?thesis
    by (simp add: read_number_def Let_def tw dw decimal_not_empty decimal_value)
qed

lemma not_digit [simp]:
  "\<not> is_digit (CHR '','')" "\<not> is_digit (CHR '')'')" "\<not> is_digit (CHR '' '')"
  by (simp_all add: is_digit_def)

lemma read_number_none: "\<not> is_digit c \<Longrightarrow> read_number (c # r) = None"
  by (simp add: read_number_def)

lemma read_shape_text:
  "read_shape (shape_text dims @ CHR '')'' # r) =
     (if length dims = 1 \<or> length dims = 2 then Some (dims, r) else None)"
proof (cases dims)
  case Nil
  then show ?thesis by (simp add: read_shape_def read_number_none)
next
  case (Cons a as)
  note da = this
  show ?thesis
  proof (cases as)
    case Nil
    have "read_number (decimal a @ CHR '','' # CHR '')'' # r) =
        Some (a, CHR '','' # CHR '')'' # r)"
      by (rule read_number_decimal) simp
    with da Nil show ?thesis by (simp add: read_shape_def)
  next
    case (Cons b bs)
    note db = this
    show ?thesis
    proof (cases bs)
      case Nil
      have 1: "read_number (decimal a @ CHR '','' # CHR '' '' # decimal b @ CHR '')'' # r)
          = Some (a, CHR '','' # CHR '' '' # decimal b @ CHR '')'' # r)"
        by (rule read_number_decimal) simp
      have 2: "read_number (decimal b @ CHR '')'' # r) = Some (b, CHR '')'' # r)"
        by (rule read_number_decimal) simp
      from da db Nil show ?thesis by (simp add: read_shape_def 1 2)
    next
      case (Cons c cs)
      define more where
        "more = decimal c @ concat (map (\<lambda>k. '', '' @ decimal k) cs) @ CHR '')'' # r"
      have 1: "read_number
            (decimal a @ CHR '','' # CHR '' '' # decimal b @ CHR '','' # CHR '' '' # more)
          = Some (a, CHR '','' # CHR '' '' # decimal b @ CHR '','' # CHR '' '' # more)"
        by (rule read_number_decimal) simp
      have 2: "read_number (decimal b @ CHR '','' # CHR '' '' # more) =
          Some (b, CHR '','' # CHR '' '' # more)"
        by (rule read_number_decimal) simp
      have st: "shape_text dims @ CHR '')'' # r =
          decimal a @ CHR '','' # CHR '' '' # decimal b @ CHR '','' # CHR '' '' # more"
        by (simp add: da db Cons more_def)
      from da db Cons show ?thesis
        unfolding st by (simp add: read_shape_def 1 2)
    qed
  qed
qed

lemma npy_parse_descr_text:
  assumes "CHR 0x27 \<notin> set descr"
  shows "npy_parse_descr (npy_descr_text descr dims pad) =
     (if length dims = 1 \<or> length dims = 2 then Some (descr, dims) else None)"
proof -
  define rest where "rest =
     CHR 0x27 # '', 'fortran_order': False, 'shape': ('' @ shape_text dims @ ''), }'' @
     replicate pad (CHR '' '') @ [CHR 0x0A]"
  have t: "npy_descr_text descr dims pad = (''{'descr': '' @ [CHR 0x27]) @ descr @ rest"
    by (simp add: npy_descr_text_def rest_def)
  have tw: "takeWhile (\<lambda>c. c \<noteq> CHR 0x27) (descr @ rest) = descr"
    using assms by (auto simp: rest_def takeWhile_tail)
  have dw: "dropWhile (\<lambda>c. c \<noteq> CHR 0x27) (descr @ rest) = rest"
    using assms by (auto simp: rest_def dropWhile_append3)
  have r2: "rest = ([CHR 0x27] @ '', 'fortran_order': False, 'shape': ('') @
      (shape_text dims @ CHR '')'' # ('', }'' @ replicate pad (CHR '' '') @ [CHR 0x0A]))"
    by (simp add: rest_def)
  have pad: "dropWhile (\<lambda>c. c = CHR '' '') (replicate pad (CHR '' '') @ [CHR 0x0A]) = [CHR 0x0A]"
    by (induction pad) simp_all
  show ?thesis
    unfolding npy_parse_descr_def t strip_prefix_append option.case tw dw
    unfolding r2 strip_prefix_append option.case read_shape_text
    by (simp add: pad)
qed

text \<open>
  On a file of the specified form the helper accepts exactly the element type \<open><u1\<close>
  with a shape of 1 or 2 dimensions, and gives the shape written and the offset behind
  the header text.
\<close>

lemma npy_read_header_file:
  assumes q: "CHR 0x27 \<notin> set descr"
    and l: "length (npy_descr_text descr dims pad) < 65536"
  shows "npy_read_header (npy_file descr dims pad payload) =
     (if descr = ''<u1'' then
        (case dims of
           [n] \<Rightarrow> Some ((n, 1), 10 + length (npy_descr_text descr dims pad))
         | [r, c] \<Rightarrow> Some ((r, c), 10 + length (npy_descr_text descr dims pad))
         | _ \<Rightarrow> None)
      else None)"
proof -
  define t where "t = npy_descr_text descr dims pad"
  define pre where "pre =
    npy_magic @ [CHR 0x01, CHR 0x00, char_of (length t mod 256), char_of (length t div 256)]"
  have f: "npy_file descr dims pad payload = pre @ t @ payload"
    by (simp add: npy_file_def Let_def pre_def t_def)
  have lp: "length pre = 10" by (simp add: pre_def npy_magic_def)
  have p6: "take 6 (pre @ t @ payload) = npy_magic"
    by (simp add: pre_def npy_magic_def)
  have v: "(pre @ t @ payload) ! 6 = CHR 0x01" "(pre @ t @ payload) ! 7 = CHR 0x00"
    by (simp_all add: pre_def npy_magic_def)
  from l have d: "length t div 256 < 256" by (simp add: t_def)
  have h: "of_char ((pre @ t @ payload) ! 8) + 256 * of_char ((pre @ t @ payload) ! 9) =
      length t"
    using d by (simp add: pre_def npy_magic_def)
  have tk: "take (length t) (drop 10 (pre @ t @ payload)) = t"
    by (simp add: lp)
  have ps: "npy_parse_descr t =
     (if length dims = 1 \<or> length dims = 2 then Some (descr, dims) else None)"
    unfolding t_def by (rule npy_parse_descr_text [OF q])
  show ?thesis
    unfolding f npy_read_header_def Let_def h p6 v tk ps
    by (auto simp: lp t_def split: list.splits)
qed

lemma npy_read_header_magic: "take 6 f \<noteq> npy_magic \<Longrightarrow> npy_read_header f = None"
  by (simp add: npy_read_header_def)

lemma npy_read_header_unparsed:
  "npy_parse_descr (take (of_char (f ! 8) + 256 * of_char (f ! 9)) (drop 10 f)) = None \<Longrightarrow>
     npy_read_header f = None"
  by (simp add: npy_read_header_def Let_def)

subsection \<open>The result of the reader\<close>

lemma grid_from_npy_path_Some_iff:
  "grid_from_npy_path fopen mmap path = Some (data, m, n) \<longleftrightarrow>
     (\<exists>f offset x. fopen path = Some f \<and> npy_read_header f = Some ((m, n), offset) \<and>
        mmap ((m * n + offset) mod 2 ^ 64) f = Some x \<and> data = x + offset)"
  by (auto simp: grid_from_npy_path_def grid_from_npy_def split: option.splits)

text \<open>
  Claim C10. The reader returns the null pointer, and stores nothing in \<open>*m\<close> and \<open>*n\<close>,
  whenever the path does not open; the first six bytes of the file are not the magic
  bytes; the header text does not parse; the file has the specified form with an
  element type other than \<open><u1\<close>, or with a shape that has not 1 or 2 dimensions; or the
  header is accepted and the mapping fails. It returns a grid only when the path opens,
  the helper accepts the header and the mapping succeeds: the pointer is then the
  address of the mapping plus the offset of the payload, with the shape of the header.
  On a file of the specified form with element type \<open><u1\<close> and a shape of 2 dimensions
  whose mapping succeeds, it does return that grid.
\<close>

theorem grid_from_npy_path_result:
  "(fopen path = None \<longrightarrow> grid_from_npy_path fopen mmap path = None) \<and>
   (fopen path = Some f \<and> take 6 f \<noteq> npy_magic \<longrightarrow>
      grid_from_npy_path fopen mmap path = None) \<and>
   (fopen path = Some f \<and>
    npy_parse_descr (take (of_char (f ! 8) + 256 * of_char (f ! 9)) (drop 10 f)) = None \<longrightarrow>
      grid_from_npy_path fopen mmap path = None) \<and>
   (fopen path = Some (npy_file descr dims pad payload) \<and> CHR 0x27 \<notin> set descr \<and>
    length (npy_descr_text descr dims pad) < 65536 \<and>
    (descr \<noteq> ''<u1'' \<or> (length dims \<noteq> 1 \<and> length dims \<noteq> 2)) \<longrightarrow>
      grid_from_npy_path fopen mmap path = None) \<and>
   (fopen path = Some f \<and> npy_read_header f = Some ((sh0, sh1), offset) \<and>
    mmap ((sh0 * sh1 + offset) mod 2 ^ 64) f = None \<longrightarrow>
      grid_from_npy_path fopen mmap path = None) \<and>
   (grid_from_npy_path fopen mmap path = Some (data, m, n) \<longrightarrow>
      (\<exists>g off x. fopen path = Some g \<and> npy_read_header g = Some ((m, n), off) \<and>
         mmap ((m * n + off) mod 2 ^ 64) g = Some x \<and> data = x + off)) \<and>
   (fopen path = Some (npy_file ''<u1'' [r, c] pad payload) \<and>
    length (npy_descr_text ''<u1'' [r, c] pad) < 65536 \<and>
    mmap ((r * c + (10 + length (npy_descr_text ''<u1'' [r, c] pad))) mod 2 ^ 64)
      (npy_file ''<u1'' [r, c] pad payload) = Some x \<longrightarrow>
      grid_from_npy_path fopen mmap path =
        Some (x + (10 + length (npy_descr_text ''<u1'' [r, c] pad)), r, c))"
proof (intro conjI impI)
  assume "fopen path = None"
  then show "grid_from_npy_path fopen mmap path = None"
    by (simp add: grid_from_npy_path_def)
next
  assume "fopen path = Some f \<and> take 6 f \<noteq> npy_magic"
  then show "grid_from_npy_path fopen mmap path = None"
    by (simp add: grid_from_npy_path_def grid_from_npy_def npy_read_header_magic)
next
  assume "fopen path = Some f \<and>
    npy_parse_descr (take (of_char (f ! 8) + 256 * of_char (f ! 9)) (drop 10 f)) = None"
  then show "grid_from_npy_path fopen mmap path = None"
    by (simp add: grid_from_npy_path_def grid_from_npy_def npy_read_header_unparsed)
next
  assume a: "fopen path = Some (npy_file descr dims pad payload) \<and> CHR 0x27 \<notin> set descr \<and>
    length (npy_descr_text descr dims pad) < 65536 \<and>
    (descr \<noteq> ''<u1'' \<or> (length dims \<noteq> 1 \<and> length dims \<noteq> 2))"
  then have "npy_read_header (npy_file descr dims pad payload) = None"
    by (auto simp: npy_read_header_file split: list.splits)
  with a show "grid_from_npy_path fopen mmap path = None"
    by (simp add: grid_from_npy_path_def grid_from_npy_def)
next
  assume "fopen path = Some f \<and> npy_read_header f = Some ((sh0, sh1), offset) \<and>
    mmap ((sh0 * sh1 + offset) mod 2 ^ 64) f = None"
  then show "grid_from_npy_path fopen mmap path = None"
    by (simp add: grid_from_npy_path_def grid_from_npy_def)
next
  assume "grid_from_npy_path fopen mmap path = Some (data, m, n)"
  then show "\<exists>g off x. fopen path = Some g \<and> npy_read_header g = Some ((m, n), off) \<and>
         mmap ((m * n + off) mod 2 ^ 64) g = Some x \<and> data = x + off"
    by (simp add: grid_from_npy_path_Some_iff)
next
  assume a: "fopen path = Some (npy_file ''<u1'' [r, c] pad payload) \<and>
    length (npy_descr_text ''<u1'' [r, c] pad) < 65536 \<and>
    mmap ((r * c + (10 + length (npy_descr_text ''<u1'' [r, c] pad))) mod 2 ^ 64)
      (npy_file ''<u1'' [r, c] pad payload) = Some x"
  then have "npy_read_header (npy_file ''<u1'' [r, c] pad payload) =
      Some ((r, c), 10 + length (npy_descr_text ''<u1'' [r, c] pad))"
    by (simp add: npy_read_header_file)
  with a show "grid_from_npy_path fopen mmap path =
        Some (x + (10 + length (npy_descr_text ''<u1'' [r, c] pad)), r, c)"
    by (simp add: grid_from_npy_path_def grid_from_npy_def)
qed

theorem grid_from_npy_path_result_witness:
  "grid_from_npy_path (\<lambda>_. None) (\<lambda>_ _. Some 4096) ''in.npy'' = None \<and>
   grid_from_npy_path (\<lambda>_. Some ''plain text, not an array'') (\<lambda>_ _. Some 4096) ''in.npy''
     = None \<and>
   grid_from_npy_path
     (\<lambda>_. Some (npy_file ''<f8'' [2, 2] 3 [CHR 0x00, CHR 0x01, CHR 0x01, CHR 0x00]))
     (\<lambda>_ _. Some 4096) ''in.npy'' = None \<and>
   grid_from_npy_path
     (\<lambda>_. Some (npy_file ''<u1'' [2, 2, 2] 3 [CHR 0x00, CHR 0x01, CHR 0x01, CHR 0x00]))
     (\<lambda>_ _. Some 4096) ''in.npy'' = None \<and>
   grid_from_npy_path
     (\<lambda>_. Some (npy_file ''<u1'' [2, 2] 3 [CHR 0x00, CHR 0x01, CHR 0x01, CHR 0x00]))
     (\<lambda>_ _. None) ''in.npy'' = None \<and>
   grid_from_npy_path
     (\<lambda>_. Some (npy_file ''<u1'' [2, 2] 3 [CHR 0x00, CHR 0x01, CHR 0x01, CHR 0x00]))
     (\<lambda>_ _. Some 4096) ''in.npy'' = Some (4169, 2, 2)"
proof (intro conjI)
  show "grid_from_npy_path (\<lambda>_. None) (\<lambda>_ _. Some 4096) ''in.npy'' = None"
    using grid_from_npy_path_result [where fopen = "\<lambda>_. None" and path = "''in.npy''"
        and mmap = "\<lambda>_ _. Some 4096"]
    by simp
  show "grid_from_npy_path (\<lambda>_. Some ''plain text, not an array'') (\<lambda>_ _. Some 4096)
      ''in.npy'' = None"
    using grid_from_npy_path_result [where fopen = "\<lambda>_. Some ''plain text, not an array''"
        and path = "''in.npy''" and mmap = "\<lambda>_ _. Some 4096"
        and f = "''plain text, not an array''"]
    by (simp add: npy_magic_def)
  show "grid_from_npy_path
     (\<lambda>_. Some (npy_file ''<f8'' [2, 2] 3 [CHR 0x00, CHR 0x01, CHR 0x01, CHR 0x00]))
     (\<lambda>_ _. Some 4096) ''in.npy'' = None"
    using grid_from_npy_path_result [where path = "''in.npy''" and mmap = "\<lambda>_ _. Some 4096"
        and fopen = "\<lambda>_. Some (npy_file ''<f8'' [2, 2] 3 [CHR 0x00, CHR 0x01, CHR 0x01, CHR 0x00])"
        and descr = "''<f8''" and dims = "[2, 2]" and pad = 3
        and payload = "[CHR 0x00, CHR 0x01, CHR 0x01, CHR 0x00]"]
    by (simp add: npy_descr_text_def decimal.simps)
  show "grid_from_npy_path
     (\<lambda>_. Some (npy_file ''<u1'' [2, 2, 2] 3 [CHR 0x00, CHR 0x01, CHR 0x01, CHR 0x00]))
     (\<lambda>_ _. Some 4096) ''in.npy'' = None"
    using grid_from_npy_path_result [where path = "''in.npy''" and mmap = "\<lambda>_ _. Some 4096"
        and fopen =
          "\<lambda>_. Some (npy_file ''<u1'' [2, 2, 2] 3 [CHR 0x00, CHR 0x01, CHR 0x01, CHR 0x00])"
        and descr = "''<u1''" and dims = "[2, 2, 2]" and pad = 3
        and payload = "[CHR 0x00, CHR 0x01, CHR 0x01, CHR 0x00]"]
    by (simp add: npy_descr_text_def decimal.simps)
  have ok: "npy_read_header (npy_file ''<u1'' [2, 2] 3 [CHR 0x00, CHR 0x01, CHR 0x01, CHR 0x00])
      = Some ((2, 2), 73)"
    by (simp add: npy_read_header_file npy_descr_text_def decimal.simps)
  show "grid_from_npy_path
     (\<lambda>_. Some (npy_file ''<u1'' [2, 2] 3 [CHR 0x00, CHR 0x01, CHR 0x01, CHR 0x00]))
     (\<lambda>_ _. None) ''in.npy'' = None"
    using grid_from_npy_path_result [where path = "''in.npy''" and mmap = "\<lambda>_ _. None"
        and fopen = "\<lambda>_. Some (npy_file ''<u1'' [2, 2] 3 [CHR 0x00, CHR 0x01, CHR 0x01, CHR 0x00])"
        and f = "npy_file ''<u1'' [2, 2] 3 [CHR 0x00, CHR 0x01, CHR 0x01, CHR 0x00]"
        and ?sh0.0 = 2 and ?sh1.0 = 2 and offset = 73] ok
    by simp
  show "grid_from_npy_path
     (\<lambda>_. Some (npy_file ''<u1'' [2, 2] 3 [CHR 0x00, CHR 0x01, CHR 0x01, CHR 0x00]))
     (\<lambda>_ _. Some 4096) ''in.npy'' = Some (4169, 2, 2)"
    using grid_from_npy_path_result [where path = "''in.npy''" and mmap = "\<lambda>_ _. Some 4096"
        and fopen = "\<lambda>_. Some (npy_file ''<u1'' [2, 2] 3 [CHR 0x00, CHR 0x01, CHR 0x01, CHR 0x00])"
        and r = 2 and c = 2 and pad = 3 and x = 4096
        and payload = "[CHR 0x00, CHR 0x01, CHR 0x01, CHR 0x00]"]
    by (simp add: npy_descr_text_def decimal.simps)
qed

end
